theory Spec2Isabelle
  imports Main
begin

section \<open>The JIT code cache of \<open>runtime/jit/jit_code_cache.cc\<close>\<close>

text \<open>
  The cache is embedded as a record of its fields together with the parts of the runtime
  it writes to (the entry point, the profiling pointer and the hotness counter of every
  \<open>ArtMethod\<close>, and the method headers stored in front of the compiled code).
  Every block of the source that runs under one acquisition of \<open>lock_\<close> is one function on
  that record; a facade operation is the composition of its blocks, and the blocks of several
  operations may be interleaved.  The release build is modelled: \<open>DCHECK\<close>s are absent.

  Addresses and sizes are natural numbers.  Arithmetic on \<open>size_t\<close> and \<open>uintptr_t\<close> that can
  leave the machine range is written with its wrap-around at the pointer width of the
  configuration.
\<close>

subsection \<open>Platform constants and configuration\<close>

type_synonym addr = nat
type_synonym ArtMethod = nat

text \<open>
  Modelled from the spec: the size constants \<open>KB\<close>, \<open>MB\<close>, \<open>GB\<close> and \<open>kPageSize\<close> of
  \<open>globals.h\<close>, which is not among the sources.  The comments of \<open>Create\<close> and of
  \<open>IncreaseCodeCacheCapacity\<close> name the 1 GB cap and the 1 MB threshold and increment.
\<close>

definition KB :: nat where "KB = 1024"
definition MB :: nat where "MB = KB * KB"
definition GB :: nat where "GB = KB * KB * KB"
definition kPageSize :: nat where "kPageSize = 4096"

text \<open>
  Modelled from the spec: the region allocator (\<open>dlmalloc\<close>'s mspace, section 4.2 of the
  specification), which is not part of the repository.  An mspace is its footprint limit,
  its base address and its live chunks (address and size).  Where the allocator places a
  block is a parameter (\<open>placement\<close>); the model accepts a placement only if the block is
  non-null, aligned, inside the footprint limit and apart from every live chunk, and
  answers null otherwise.  Freeing removes the chunk that starts at the pointer; freeing a
  pointer at which no chunk starts, which the allocator leaves undefined, changes nothing.
\<close>

record mspace =
  footprint_limit :: nat
  ms_base :: addr
  chunks :: "(addr \<times> nat) list"

type_synonym placement = "mspace \<Rightarrow> nat \<Rightarrow> nat \<Rightarrow> addr option"

definition admissible :: "mspace \<Rightarrow> nat \<Rightarrow> addr \<Rightarrow> nat \<Rightarrow> bool" where
  "admissible ms al a n \<longleftrightarrow>
     a \<noteq> 0 \<and> al dvd a \<and> ms_base ms \<le> a \<and> a + n \<le> ms_base ms + footprint_limit ms \<and>
     list_all (\<lambda>c. a \<noteq> fst c \<and> (a + n \<le> fst c \<or> fst c + snd c \<le> a)) (chunks ms)"

definition mspace_memalign :: "placement \<Rightarrow> mspace \<Rightarrow> nat \<Rightarrow> nat \<Rightarrow> addr option \<times> mspace" where
  "mspace_memalign pl ms al n =
     (case pl ms al n of
        None \<Rightarrow> (None, ms)
      | Some a \<Rightarrow>
          if admissible ms al a n then (Some a, ms\<lparr>chunks := (a, n) # chunks ms\<rparr>)
          else (None, ms))"

definition mspace_malloc :: "placement \<Rightarrow> mspace \<Rightarrow> nat \<Rightarrow> addr option \<times> mspace" where
  "mspace_malloc pl ms n = mspace_memalign pl ms 1 n"

definition mspace_free :: "mspace \<Rightarrow> addr \<Rightarrow> mspace" where
  "mspace_free ms p = ms\<lparr>chunks := filter (\<lambda>c. fst c \<noteq> p) (chunks ms)\<rparr>"

definition mspace_set_footprint_limit :: "mspace \<Rightarrow> nat \<Rightarrow> mspace" where
  "mspace_set_footprint_limit ms n = ms\<lparr>footprint_limit := n\<rparr>"

definition bytes_allocated :: "mspace \<Rightarrow> nat" where
  "bytes_allocated ms = sum_list (map snd (chunks ms))"

text \<open>
  The constants and helpers that the cache takes from headers outside the sources are the
  fields of a configuration: the pointer width, whether \<open>kRuntimeISA\<close> is \<open>kArm\<close>,
  \<open>GetInstructionSetAlignment(kRuntimeISA)\<close>, the three \<open>sizeof\<close>s, the address of the
  interpreter bridge, \<open>OatQuickMethodHeader::GetEntryPoint\<close> as a function of the code
  address, the placement policy of the allocator, and whether \<open>mprotect\<close> succeeds.
\<close>

record config =
  pointer_bits :: nat
  kRuntimeISA_is_kArm :: bool
  instruction_set_alignment :: nat
  sizeof_OatQuickMethodHeader :: nat
  sizeof_ProfilingInfo :: nat
  sizeof_InlineCache :: nat
  GetQuickToInterpreterBridge :: addr
  GetEntryPoint :: "addr \<Rightarrow> addr"
  place :: placement
  mprotect_ok :: bool

definition sizeof_pointer :: "config \<Rightarrow> nat" where
  "sizeof_pointer cfg = pointer_bits cfg div 8"

definition wrap :: "config \<Rightarrow> nat \<Rightarrow> nat" where
  "wrap cfg n = n mod 2 ^ pointer_bits cfg"

definition ptr_minus :: "config \<Rightarrow> addr \<Rightarrow> nat \<Rightarrow> addr" where
  "ptr_minus cfg p n = nat ((int p - int n) mod 2 ^ pointer_bits cfg)"

definition RoundDown :: "nat \<Rightarrow> nat \<Rightarrow> nat" where
  "RoundDown x n = x - x mod n"

definition RoundUp :: "config \<Rightarrow> nat \<Rightarrow> nat \<Rightarrow> nat" where
  "RoundUp cfg x n = RoundDown (wrap cfg (x + n - 1)) n"

subsection \<open>State\<close>

datatype region = CodeRegion | DataRegion

text \<open>
  The observable calls of an execution are logged in the field \<open>trace\<close>, which the source
  does not have: every call of the allocator with its size and answer, the start of a
  collector cycle, a growth of the capacity, a sweep, and every call of
  \<open>Instrumentation::UpdateMethodsCode\<close>.
\<close>

datatype event =
    Allocate region nat "addr option"
  | CollectionStarted
  | CapacityIncreased nat
  | Swept
  | MethodsCodeUpdated ArtMethod addr

text \<open>
  What ends a block other than its return: the wait on \<open>lock_cond_\<close> while another
  thread's collection is in progress (the waiting thread goes on only after that thread has
  finished), a fatal check, a call through the null \<open>live_bitmap_\<close>, and the decrement of
  \<open>method_code_map_.begin()\<close>.
\<close>

datatype fault = WouldBlock | Fatal string | NullBitmap | BeforeBegin

record OatQuickMethodHeader =
  mapping_table_offset :: nat
  vmap_table_offset :: nat
  gc_map_offset :: nat
  frame_size_in_bytes :: nat
  core_spill_mask :: nat
  fp_spill_mask :: nat
  code_size :: nat

definition zero_header :: OatQuickMethodHeader where
  "zero_header = \<lparr>mapping_table_offset = 0, vmap_table_offset = 0, gc_map_offset = 0,
     frame_size_in_bytes = 0, core_spill_mask = 0, fp_spill_mask = 0, code_size = 0\<rparr>"

record JitCodeCache =
  collection_in_progress :: bool
  code_map_begin :: addr
  code_map_size :: nat
  data_map_begin :: addr
  data_map_size :: nat
  max_capacity :: nat
  current_capacity :: nat
  code_mspace :: mspace
  data_mspace :: mspace
  method_code_map :: "(addr \<times> ArtMethod) list"
  profiling_infos :: "(addr \<times> ArtMethod) list"
  live_bitmap :: "addr set option"
  has_done_one_collection :: bool
  last_update_time_ns :: nat
  method_headers :: "addr \<Rightarrow> OatQuickMethodHeader"
  entry_point_from_quick_compiled_code :: "ArtMethod \<Rightarrow> addr"
  profiling_info :: "ArtMethod \<Rightarrow> addr option"
  hotness_count :: "ArtMethod \<Rightarrow> nat"
  trace :: "event list"

text \<open>
  \<open>method_code_map\<close> is the \<open>SafeMap\<close> from code pointer to method as the list of its
  entries in iteration order (ascending keys); \<open>profiling_infos\<close> is the vector of
  \<open>ProfilingInfo\<close> pointers, each paired with the method stored in the record;
  \<open>method_headers c\<close> is the header in front of the code at \<open>c\<close>; the live bitmap is the set
  of addresses whose bit is set, or \<open>None\<close> while \<open>live_bitmap_\<close> is null.  The fields
  \<open>code_end_\<close> and \<open>data_end_\<close> are written by \<open>MoreCore\<close> only, which the allocator calls,
  and are left out.
\<close>

definition log :: "event \<Rightarrow> JitCodeCache \<Rightarrow> JitCodeCache" where
  "log e s = s\<lparr>trace := trace s @ [e]\<rparr>"

definition ContainsPc :: "JitCodeCache \<Rightarrow> addr \<Rightarrow> bool" where
  "ContainsPc s ptr \<longleftrightarrow> code_map_begin s \<le> ptr \<and> ptr < code_map_begin s + code_map_size s"

definition ContainsMethod :: "JitCodeCache \<Rightarrow> ArtMethod \<Rightarrow> bool" where
  "ContainsMethod s m \<longleftrightarrow> list_ex (\<lambda>e. snd e = m) (method_code_map s)"

definition header_size :: "config \<Rightarrow> nat" where
  "header_size cfg = RoundUp cfg (sizeof_OatQuickMethodHeader cfg) (instruction_set_alignment cfg)"

definition FromCodeToAllocation :: "config \<Rightarrow> addr \<Rightarrow> addr" where
  "FromCodeToAllocation cfg code = ptr_minus cfg code (header_size cfg)"

definition FromCodePointer :: "config \<Rightarrow> addr \<Rightarrow> addr" where
  "FromCodePointer cfg code = ptr_minus cfg code (sizeof_OatQuickMethodHeader cfg)"

definition CodeCacheSizeLocked :: "JitCodeCache \<Rightarrow> nat" where
  "CodeCacheSizeLocked s = bytes_allocated (code_mspace s)"

definition DataCacheSizeLocked :: "JitCodeCache \<Rightarrow> nat" where
  "DataCacheSizeLocked s = bytes_allocated (data_mspace s)"

definition NumberOfCompiledCode :: "JitCodeCache \<Rightarrow> nat" where
  "NumberOfCompiledCode s = length (method_code_map s)"

text \<open>
  Modelled from the spec: \<open>Instrumentation::UpdateMethodsCode\<close> (section 6,
  \<open>UpdateEntryPoint\<close>), which rewrites the dispatch slot of a method, and the accessors of
  \<open>OatQuickMethodHeader\<close> (section 3): an auxiliary table is absent when its offset is zero
  and lies that many bytes below the code otherwise; \<open>Contains\<close> holds for a program
  counter within the recorded length of the code.
\<close>

definition UpdateMethodsCode :: "ArtMethod \<Rightarrow> addr \<Rightarrow> JitCodeCache \<Rightarrow> JitCodeCache" where
  "UpdateMethodsCode m a s =
     log (MethodsCodeUpdated m a)
       (s\<lparr>entry_point_from_quick_compiled_code := (entry_point_from_quick_compiled_code s)(m := a)\<rparr>)"

definition table_at :: "config \<Rightarrow> addr \<Rightarrow> nat \<Rightarrow> addr option" where
  "table_at cfg code off =
     (if off = 0 then None
      else let p = ptr_minus cfg code off in if p = 0 then None else Some p)"

definition GetNativeGcMap :: "config \<Rightarrow> OatQuickMethodHeader \<Rightarrow> addr \<Rightarrow> addr option" where
  "GetNativeGcMap cfg h code = table_at cfg code (gc_map_offset h)"

definition GetMappingTable :: "config \<Rightarrow> OatQuickMethodHeader \<Rightarrow> addr \<Rightarrow> addr option" where
  "GetMappingTable cfg h code = table_at cfg code (mapping_table_offset h)"

definition Contains :: "OatQuickMethodHeader \<Rightarrow> addr \<Rightarrow> addr \<Rightarrow> bool" where
  "Contains h code pc \<longleftrightarrow> code \<le> pc \<and> pc \<le> code + code_size h"

definition ClearCounter :: "ArtMethod \<Rightarrow> JitCodeCache \<Rightarrow> JitCodeCache" where
  "ClearCounter m s = s\<lparr>hotness_count := (hotness_count s)(m := 0)\<rparr>"

definition SetProfilingInfo :: "ArtMethod \<Rightarrow> addr option \<Rightarrow> JitCodeCache \<Rightarrow> JitCodeCache" where
  "SetProfilingInfo m i s = s\<lparr>profiling_info := (profiling_info s)(m := i)\<rparr>"

subsection \<open>Freeing code\<close>

definition free_data :: "addr option \<Rightarrow> JitCodeCache \<Rightarrow> JitCodeCache" where
  "free_data p s = (case p of None \<Rightarrow> s | Some d \<Rightarrow> s\<lparr>data_mspace := mspace_free (data_mspace s) d\<rparr>)"

text \<open>
  \<open>FreeCode\<close> frees the GC map and the mapping table when their accessors are non-null,
  the vmap table when its offset is non-zero (the offset is read directly), and last the
  allocation of the code.
\<close>

definition FreeCode :: "config \<Rightarrow> addr \<Rightarrow> JitCodeCache \<Rightarrow> JitCodeCache" where
  "FreeCode cfg code_ptr s =
     (let allocation = FromCodeToAllocation cfg code_ptr;
          method_header = method_headers s code_ptr;
          s1 = free_data (GetNativeGcMap cfg method_header code_ptr) s;
          s2 = free_data (GetMappingTable cfg method_header code_ptr) s1;
          s3 = (if vmap_table_offset method_header \<noteq> 0
                then free_data (Some (ptr_minus cfg code_ptr (vmap_table_offset method_header))) s2
                else s2)
      in s3\<lparr>code_mspace := mspace_free (code_mspace s3) allocation\<rparr>)"

subsection \<open>Capacity\<close>

definition SetFootprintLimit :: "config \<Rightarrow> nat \<Rightarrow> JitCodeCache \<Rightarrow> fault + JitCodeCache" where
  "SetFootprintLimit cfg new_footprint s =
     (let per_space_footprint = new_footprint div 2;
          s1 = s\<lparr>data_mspace := mspace_set_footprint_limit (data_mspace s) per_space_footprint\<rparr>
      in if \<not> mprotect_ok cfg then Inl (Fatal ''Failed to mprotect jit code cache'')
         else Inr (s1\<lparr>code_mspace := mspace_set_footprint_limit (code_mspace s1) per_space_footprint\<rparr>))"

definition IncreaseCodeCacheCapacity :: "config \<Rightarrow> JitCodeCache \<Rightarrow> fault + (bool \<times> JitCodeCache)" where
  "IncreaseCodeCacheCapacity cfg s =
     (if current_capacity s = max_capacity s then Inr (False, s)
      else
        let c1 = (if current_capacity s < 1 * MB then wrap cfg (current_capacity s * 2)
                  else wrap cfg (current_capacity s + 1 * MB));
            c2 = (if c1 > max_capacity s then max_capacity s else c1)
        in case SetFootprintLimit cfg c2 (s\<lparr>current_capacity := c2\<rparr>) of
             Inl e \<Rightarrow> Inl e
           | Inr s' \<Rightarrow> Inr (True, s'))"

subsection \<open>The collector\<close>

definition NotifyCollectionDone :: "JitCodeCache \<Rightarrow> JitCodeCache" where
  "NotifyCollectionDone s = s\<lparr>collection_in_progress := False\<rparr>"

text \<open>
  First block of \<open>GarbageCollectCache\<close>: wait for a collection in progress, or announce
  this one.  After the wait the source returns without a cycle of its own; the wait needs
  the other thread to finish and is the fault \<open>WouldBlock\<close> here.
\<close>

definition GarbageCollectCache_begin :: "JitCodeCache \<Rightarrow> fault + JitCodeCache" where
  "GarbageCollectCache_begin s =
     (if collection_in_progress s then Inl WouldBlock
      else Inr (log CollectionStarted (s\<lparr>collection_in_progress := True\<rparr>)))"

text \<open>
  Second block: grow the capacity and finish (the result is \<open>True\<close>), or create the empty
  bitmap and go on to collect (\<open>False\<close>).  The \<open>&&\<close> of the source calls
  \<open>IncreaseCodeCacheCapacity\<close> only after a collection has been done.
\<close>

definition GarbageCollectCache_decide :: "config \<Rightarrow> JitCodeCache \<Rightarrow> fault + (bool \<times> JitCodeCache)" where
  "GarbageCollectCache_decide cfg s =
     (if has_done_one_collection s then
        (case IncreaseCodeCacheCapacity cfg s of
           Inl e \<Rightarrow> Inl e
         | Inr (grown, s1) \<Rightarrow>
             if grown then
               Inr (True, NotifyCollectionDone
                            (log (CapacityIncreased (current_capacity s1))
                               (s1\<lparr>has_done_one_collection := False\<rparr>)))
             else Inr (False, s1\<lparr>live_bitmap := Some {}\<rparr>))
      else Inr (False, s\<lparr>live_bitmap := Some {}\<rparr>))"

text \<open>
  Third block: every method of the map gets the interpreter bridge as its entry point, and
  every profiling record is detached from its method.
\<close>

definition GarbageCollectCache_reset :: "config \<Rightarrow> JitCodeCache \<Rightarrow> JitCodeCache" where
  "GarbageCollectCache_reset cfg s =
     (let s1 = fold (\<lambda>it. UpdateMethodsCode (snd it) (GetQuickToInterpreterBridge cfg))
                 (method_code_map s) s
      in fold (\<lambda>info. SetProfilingInfo (snd info) None) (profiling_infos s1) s1)"

text \<open>
  The checkpoint: \<open>MarkCodeVisitor::VisitFrame\<close> on every frame of every thread.  A frame
  is the code pointer of its method header, or \<open>None\<close> when it has no header.
\<close>

definition VisitFrame :: "config \<Rightarrow> JitCodeCache \<Rightarrow> addr option \<Rightarrow> addr set \<Rightarrow> addr set" where
  "VisitFrame cfg s frame bitmap =
     (case frame of
        None \<Rightarrow> bitmap
      | Some code \<Rightarrow>
          if ContainsPc s code then insert (FromCodeToAllocation cfg code) bitmap else bitmap)"

definition marks :: "JitCodeCache \<Rightarrow> addr option list \<Rightarrow> bool" where
  "marks s frames \<longleftrightarrow> list_ex (\<lambda>f. case f of None \<Rightarrow> False | Some code \<Rightarrow> ContainsPc s code) frames"

definition MarkCode :: "config \<Rightarrow> addr option list \<Rightarrow> JitCodeCache \<Rightarrow> fault + JitCodeCache" where
  "MarkCode cfg frames s =
     (case live_bitmap s of
        None \<Rightarrow> if marks s frames then Inl NullBitmap else Inr s
      | Some bitmap \<Rightarrow> Inr (s\<lparr>live_bitmap := Some (fold (VisitFrame cfg s) frames bitmap)\<rparr>))"

text \<open>
  The sweep loop over the entries of the map, in iteration order: the entries kept, and
  the state after the loop.
\<close>

fun sweep :: "config \<Rightarrow> addr set \<Rightarrow> (addr \<times> ArtMethod) list \<Rightarrow> JitCodeCache \<Rightarrow>
    (addr \<times> ArtMethod) list \<times> JitCodeCache" where
  "sweep cfg bitmap [] s = ([], s)"
| "sweep cfg bitmap (it # rest) s =
     (if FromCodeToAllocation cfg (fst it) \<in> bitmap then
        (let (kept, s') = sweep cfg bitmap rest (UpdateMethodsCode (snd it) (GetEntryPoint cfg (fst it)) s)
         in (it # kept, s'))
      else sweep cfg bitmap rest (FreeCode cfg (fst it) (ClearCounter (snd it) s)))"

definition free_profiling_infos :: "JitCodeCache \<Rightarrow> JitCodeCache" where
  "free_profiling_infos s =
     (fold (\<lambda>info. free_data (Some (fst info))) (profiling_infos s) s)\<lparr>profiling_infos := []\<rparr>"

text \<open>Last block: the sweep, the release of all profiling records, and the end of the cycle.\<close>

definition GarbageCollectCache_sweep :: "config \<Rightarrow> JitCodeCache \<Rightarrow> fault + JitCodeCache" where
  "GarbageCollectCache_sweep cfg s =
     (if \<not> mprotect_ok cfg then Inl (Fatal ''Failed to mprotect jit code cache'')
      else if method_code_map s \<noteq> [] \<and> live_bitmap s = None then Inl NullBitmap
      else
        let bitmap = (case live_bitmap s of None \<Rightarrow> {} | Some b \<Rightarrow> b);
            (kept, s1) = sweep cfg bitmap (method_code_map s) s;
            s2 = free_profiling_infos (s1\<lparr>method_code_map := kept\<rparr>)
        in Inr (NotifyCollectionDone
                  (log Swept (s2\<lparr>live_bitmap := None, has_done_one_collection := True\<rparr>))))"

text \<open>\<open>GarbageCollectCache\<close> run by one thread with no other thread in between.\<close>

definition GarbageCollectCache :: "config \<Rightarrow> addr option list \<Rightarrow> JitCodeCache \<Rightarrow> fault + JitCodeCache" where
  "GarbageCollectCache cfg frames s =
     (case GarbageCollectCache_begin s of
        Inl e \<Rightarrow> Inl e
      | Inr s1 \<Rightarrow>
          (case GarbageCollectCache_decide cfg s1 of
             Inl e \<Rightarrow> Inl e
           | Inr (grown, s2) \<Rightarrow>
               if grown then Inr s2
               else (case MarkCode cfg frames (GarbageCollectCache_reset cfg s2) of
                       Inl e \<Rightarrow> Inl e
                     | Inr s3 \<Rightarrow> GarbageCollectCache_sweep cfg s3)))"

subsection \<open>Committing code\<close>

text \<open>
  Modelled from the spec: \<open>SafeMap::Put\<close> (section 4.3, \<open>Insert\<close> with the semantics of an
  ordered map): the entry is inserted at its place in the order of the keys, and replaces
  an entry with the same key.
\<close>

fun Put :: "addr \<Rightarrow> ArtMethod \<Rightarrow> (addr \<times> ArtMethod) list \<Rightarrow> (addr \<times> ArtMethod) list" where
  "Put k v [] = [(k, v)]"
| "Put k v (e # es) =
     (if k < fst e then (k, v) # e # es
      else if k = fst e then (k, v) # es
      else e # Put k v es)"

text \<open>
  The arguments of \<open>CommitCode\<close>.  The instruction bytes are not modelled, only their
  number; a table pointer is \<open>None\<close> for \<open>nullptr\<close>.
\<close>

record commit_args =
  arg_method :: ArtMethod
  arg_mapping_table :: "addr option"
  arg_vmap_table :: "addr option"
  arg_gc_map :: "addr option"
  arg_frame_size_in_bytes :: nat
  arg_core_spill_mask :: nat
  arg_fp_spill_mask :: nat
  arg_code_size :: nat

text \<open>The difference of two pointers stored in a 32-bit field of the header.\<close>

definition offset_to :: "addr \<Rightarrow> addr option \<Rightarrow> nat" where
  "offset_to code_ptr table =
     (case table of None \<Rightarrow> 0 | Some t \<Rightarrow> nat ((int code_ptr - int t) mod 2 ^ 32))"

text \<open>
  First block of \<open>CommitCodeInternal\<close>: wait, allocate header and code in the code
  region, write the header.  The result is the code pointer, or \<open>None\<close> when the allocator
  answered null.
\<close>

definition CommitCodeInternal_allocate ::
    "config \<Rightarrow> commit_args \<Rightarrow> JitCodeCache \<Rightarrow> fault + (addr option \<times> JitCodeCache)" where
  "CommitCodeInternal_allocate cfg args s =
     (let alignment = instruction_set_alignment cfg;
          total_size = wrap cfg (header_size cfg + arg_code_size args)
      in if collection_in_progress s then Inl WouldBlock
         else if \<not> mprotect_ok cfg then Inl (Fatal ''Failed to mprotect jit code cache'')
         else
           (case mspace_memalign (place cfg) (code_mspace s) alignment total_size of
              (None, ms) \<Rightarrow> Inr (None, log (Allocate CodeRegion total_size None) s)
            | (Some result, ms) \<Rightarrow>
                let code_ptr = result + header_size cfg;
                    method_header =
                      \<lparr>mapping_table_offset = offset_to code_ptr (arg_mapping_table args),
                       vmap_table_offset = offset_to code_ptr (arg_vmap_table args),
                       gc_map_offset = offset_to code_ptr (arg_gc_map args),
                       frame_size_in_bytes = arg_frame_size_in_bytes args,
                       core_spill_mask = arg_core_spill_mask args,
                       fp_spill_mask = arg_fp_spill_mask args,
                       code_size = arg_code_size args\<rparr>
                in Inr (Some code_ptr,
                        log (Allocate CodeRegion total_size (Some result))
                          (s\<lparr>code_mspace := ms,
                             method_headers := (method_headers s)(code_ptr := method_header)\<rparr>))))"

text \<open>
  Second block: publish the entry in the map, set the entry point of the method, and set
  the bit of the allocation in the live bitmap if a collection is in progress.
\<close>

definition CommitCodeInternal_publish ::
    "config \<Rightarrow> ArtMethod \<Rightarrow> addr \<Rightarrow> nat \<Rightarrow> JitCodeCache \<Rightarrow> fault + JitCodeCache" where
  "CommitCodeInternal_publish cfg m code_ptr now s =
     (let s1 = UpdateMethodsCode m (GetEntryPoint cfg code_ptr)
                 (s\<lparr>method_code_map := Put code_ptr m (method_code_map s)\<rparr>)
      in if collection_in_progress s1 then
           (case live_bitmap s1 of
              None \<Rightarrow> Inl NullBitmap
            | Some bitmap \<Rightarrow>
                Inr (s1\<lparr>live_bitmap := Some (insert (FromCodeToAllocation cfg code_ptr) bitmap),
                        last_update_time_ns := now\<rparr>))
         else Inr (s1\<lparr>last_update_time_ns := now\<rparr>))"

text \<open>
  \<open>CommitCodeInternal\<close> and \<open>CommitCode\<close> run by one thread with no other thread in
  between.  The result is the address of the method header, or \<open>None\<close> for \<open>nullptr\<close>;
  \<open>now\<close> is the value of \<open>NanoTime()\<close> and \<open>frames\<close> what the checkpoint of a collection
  finds on the stacks.
\<close>

definition CommitCodeInternal ::
    "config \<Rightarrow> commit_args \<Rightarrow> nat \<Rightarrow> JitCodeCache \<Rightarrow> fault + (addr option \<times> JitCodeCache)" where
  "CommitCodeInternal cfg args now s =
     (case CommitCodeInternal_allocate cfg args s of
        Inl e \<Rightarrow> Inl e
      | Inr (None, s1) \<Rightarrow> Inr (None, s1)
      | Inr (Some code_ptr, s1) \<Rightarrow>
          (case CommitCodeInternal_publish cfg (arg_method args) code_ptr now s1 of
             Inl e \<Rightarrow> Inl e
           | Inr s2 \<Rightarrow> Inr (Some (FromCodePointer cfg code_ptr), s2)))"

definition CommitCode ::
    "config \<Rightarrow> addr option list \<Rightarrow> commit_args \<Rightarrow> nat \<Rightarrow> JitCodeCache \<Rightarrow>
     fault + (addr option \<times> JitCodeCache)" where
  "CommitCode cfg frames args now s =
     (case CommitCodeInternal cfg args now s of
        Inl e \<Rightarrow> Inl e
      | Inr (Some result, s1) \<Rightarrow> Inr (Some result, s1)
      | Inr (None, s1) \<Rightarrow>
          (case GarbageCollectCache cfg frames s1 of
             Inl e \<Rightarrow> Inl e
           | Inr s2 \<Rightarrow> CommitCodeInternal cfg args now s2))"

subsection \<open>Data\<close>

text \<open>One locked block of \<open>ReserveData\<close>: wait, then \<open>mspace_malloc\<close> in the data region.\<close>

definition ReserveData_allocate ::
    "config \<Rightarrow> nat \<Rightarrow> JitCodeCache \<Rightarrow> fault + (addr option \<times> JitCodeCache)" where
  "ReserveData_allocate cfg n s =
     (if collection_in_progress s then Inl WouldBlock
      else
        (case mspace_malloc (place cfg) (data_mspace s) n of
           (result, ms) \<Rightarrow> Inr (result, log (Allocate DataRegion n result) (s\<lparr>data_mspace := ms\<rparr>))))"

definition ReserveData ::
    "config \<Rightarrow> addr option list \<Rightarrow> nat \<Rightarrow> JitCodeCache \<Rightarrow> fault + (addr option \<times> JitCodeCache)" where
  "ReserveData cfg frames size0 s =
     (let n = RoundUp cfg size0 (sizeof_pointer cfg)
      in case ReserveData_allocate cfg n s of
           Inl e \<Rightarrow> Inl e
         | Inr (Some result, s1) \<Rightarrow> Inr (Some result, s1)
         | Inr (None, s1) \<Rightarrow>
             (case GarbageCollectCache cfg frames s1 of
                Inl e \<Rightarrow> Inl e
              | Inr s2 \<Rightarrow> ReserveData_allocate cfg n s2))"

definition ClearData :: "addr \<Rightarrow> JitCodeCache \<Rightarrow> JitCodeCache" where
  "ClearData data s = s\<lparr>data_mspace := mspace_free (data_mspace s) data\<rparr>"

subsection \<open>Profiling records\<close>

definition AddProfilingInfoInternal ::
    "config \<Rightarrow> ArtMethod \<Rightarrow> nat list \<Rightarrow> JitCodeCache \<Rightarrow> fault + (addr option \<times> JitCodeCache)" where
  "AddProfilingInfoInternal cfg m entries s =
     (let profile_info_size =
            RoundUp cfg (wrap cfg (sizeof_ProfilingInfo cfg
                                   + wrap cfg (sizeof_InlineCache cfg * length entries)))
              (sizeof_pointer cfg)
      in if collection_in_progress s then Inl WouldBlock
         else
           (case profiling_info s m of
              Some info \<Rightarrow> Inr (Some info, s)
            | None \<Rightarrow>
                (case mspace_malloc (place cfg) (data_mspace s) profile_info_size of
                   (None, ms) \<Rightarrow> Inr (None, log (Allocate DataRegion profile_info_size None) s)
                 | (Some data, ms) \<Rightarrow>
                     Inr (Some data,
                          log (Allocate DataRegion profile_info_size (Some data))
                            (SetProfilingInfo m (Some data)
                               (s\<lparr>data_mspace := ms,
                                  profiling_infos := profiling_infos s @ [(data, m)]\<rparr>))))))"

definition AddProfilingInfo ::
    "config \<Rightarrow> addr option list \<Rightarrow> ArtMethod \<Rightarrow> nat list \<Rightarrow> bool \<Rightarrow> JitCodeCache \<Rightarrow>
     fault + (addr option \<times> JitCodeCache)" where
  "AddProfilingInfo cfg frames m entries retry_allocation s =
     (case AddProfilingInfoInternal cfg m entries s of
        Inl e \<Rightarrow> Inl e
      | Inr (info, s1) \<Rightarrow>
          if info = None \<and> retry_allocation then
            (case GarbageCollectCache cfg frames s1 of
               Inl e \<Rightarrow> Inl e
             | Inr s2 \<Rightarrow> AddProfilingInfoInternal cfg m entries s2)
          else Inr (info, s1))"

subsection \<open>Unloading\<close>

text \<open>
  \<open>RemoveMethodsIn\<close>: \<open>in_alloc\<close> is \<open>alloc.ContainsUnsafe\<close>.  The block does not wait for
  a collection in progress.
\<close>

fun remove_code :: "config \<Rightarrow> (ArtMethod \<Rightarrow> bool) \<Rightarrow> (addr \<times> ArtMethod) list \<Rightarrow> JitCodeCache \<Rightarrow>
    (addr \<times> ArtMethod) list \<times> JitCodeCache" where
  "remove_code cfg in_alloc [] s = ([], s)"
| "remove_code cfg in_alloc (it # rest) s =
     (if in_alloc (snd it) then remove_code cfg in_alloc rest (FreeCode cfg (fst it) s)
      else (let (kept, s') = remove_code cfg in_alloc rest s in (it # kept, s')))"

fun remove_infos :: "(ArtMethod \<Rightarrow> bool) \<Rightarrow> (addr \<times> ArtMethod) list \<Rightarrow> JitCodeCache \<Rightarrow>
    (addr \<times> ArtMethod) list \<times> JitCodeCache" where
  "remove_infos in_alloc [] s = ([], s)"
| "remove_infos in_alloc (info # rest) s =
     (if in_alloc (snd info)
      then remove_infos in_alloc rest (free_data (Some (fst info)) (SetProfilingInfo (snd info) None s))
      else (let (kept, s') = remove_infos in_alloc rest s in (info # kept, s')))"

definition RemoveMethodsIn :: "config \<Rightarrow> (ArtMethod \<Rightarrow> bool) \<Rightarrow> JitCodeCache \<Rightarrow> fault + JitCodeCache" where
  "RemoveMethodsIn cfg in_alloc s =
     (if \<not> mprotect_ok cfg then Inl (Fatal ''Failed to mprotect jit code cache'')
      else
        let (kept, s1) = remove_code cfg in_alloc (method_code_map s) s;
            s2 = s1\<lparr>method_code_map := kept\<rparr>;
            (infos, s3) = remove_infos in_alloc (profiling_infos s2) s2
        in Inr (s3\<lparr>profiling_infos := infos\<rparr>))"

subsection \<open>Lookup\<close>

text \<open>
  \<open>LookupMethodHeader\<close>: \<open>lower_bound\<close> is the position of the first entry whose key is not
  below the program counter; the iterator is then decremented.  The second argument is only
  read by a \<open>DCHECK\<close>.
\<close>

definition lower_bound :: "addr \<Rightarrow> (addr \<times> ArtMethod) list \<Rightarrow> nat" where
  "lower_bound pc entries = length (takeWhile (\<lambda>e. fst e < pc) entries)"

definition LookupMethodHeader ::
    "config \<Rightarrow> addr \<Rightarrow> ArtMethod option \<Rightarrow> JitCodeCache \<Rightarrow> fault + addr option" where
  "LookupMethodHeader cfg pc0 m s =
     (let pc = (if kRuntimeISA_is_kArm cfg then ptr_minus cfg pc0 1 else pc0)
      in if \<not> ContainsPc s pc then Inr None
         else if method_code_map s = [] then Inr None
         else
           let it = lower_bound pc (method_code_map s)
           in if it = 0 then Inl BeforeBegin
              else
                let code_ptr = fst (method_code_map s ! (it - 1))
                in if \<not> Contains (method_headers s code_ptr) code_ptr pc then Inr None
                   else Inr (Some (FromCodePointer cfg code_ptr)))"

subsection \<open>Construction\<close>

text \<open>
  What \<open>Create\<close> asks of the platform: the two mappings (an error string, or the address
  where the mapping begins), the creation of an mspace over a region (whether it succeeds),
  and \<open>PrettySize\<close>; and the entry points and hotness counters that the methods have when
  the cache is made.
\<close>

record platform =
  MapAnonymous :: "nat \<Rightarrow> string + addr"
  RemapAtEnd :: "addr \<Rightarrow> string + addr"
  create_mspace_with_base_ok :: "addr \<Rightarrow> nat \<Rightarrow> bool"
  PrettySize :: "nat \<Rightarrow> string"
  initial_entry_points :: "ArtMethod \<Rightarrow> addr"
  initial_hotness :: "ArtMethod \<Rightarrow> nat"

fun decimal :: "nat \<Rightarrow> string" where
  "decimal n = (if n < 10 then [''0123456789'' ! n]
                else decimal (n div 10) @ [''0123456789'' ! (n mod 10)])"

definition create_mspace_with_base :: "addr \<Rightarrow> nat \<Rightarrow> mspace" where
  "create_mspace_with_base base capacity = \<lparr>footprint_limit = capacity, ms_base = base, chunks = []\<rparr>"

text \<open>The constructor; a failure in it is fatal.\<close>

definition JitCodeCache_new ::
    "config \<Rightarrow> platform \<Rightarrow> addr \<Rightarrow> nat \<Rightarrow> addr \<Rightarrow> nat \<Rightarrow> nat \<Rightarrow> nat \<Rightarrow> nat \<Rightarrow> fault + JitCodeCache" where
  "JitCodeCache_new cfg pf code_begin code_map_sz data_begin data_map_sz
       initial_code_capacity initial_data_capacity max_cap =
     (let s = \<lparr>collection_in_progress = False,
               code_map_begin = code_begin,
               code_map_size = code_map_sz,
               data_map_begin = data_begin,
               data_map_size = data_map_sz,
               max_capacity = max_cap,
               current_capacity = initial_code_capacity + initial_data_capacity,
               code_mspace = create_mspace_with_base code_begin initial_code_capacity,
               data_mspace = create_mspace_with_base data_begin initial_data_capacity,
               method_code_map = [],
               profiling_infos = [],
               live_bitmap = None,
               has_done_one_collection = False,
               last_update_time_ns = 0,
               method_headers = (\<lambda>c. zero_header),
               entry_point_from_quick_compiled_code = initial_entry_points pf,
               profiling_info = (\<lambda>m. None),
               hotness_count = initial_hotness pf,
               trace = []\<rparr>
      in if \<not> create_mspace_with_base_ok pf code_begin initial_code_capacity
            \<or> \<not> create_mspace_with_base_ok pf data_begin initial_data_capacity
         then Inl (Fatal ''create_mspace_with_base failed'')
         else SetFootprintLimit cfg (current_capacity s) s)"

text \<open>
  \<open>Create\<close>: the outer sum is a fatal check, the inner one the null result with the error
  message written to \<open>error_msg\<close>.
\<close>

definition Create :: "config \<Rightarrow> platform \<Rightarrow> nat \<Rightarrow> nat \<Rightarrow> fault + (string + JitCodeCache)" where
  "Create cfg pf initial_capacity max_cap =
     (if \<not> max_cap \<ge> initial_capacity
      then Inl (Fatal ''Check failed: max_capacity >= initial_capacity'')
      else if max_cap > 1 * GB
      then Inr (Inl (''Maxium code cache capacity is limited to 1 GB, ''
                     @ PrettySize pf max_cap @ '' is too big''))
      else
        (case MapAnonymous pf max_cap of
           Inl error_str \<Rightarrow>
             Inr (Inl (''Failed to create read write execute cache: '' @ error_str
                       @ '' size='' @ decimal max_cap))
         | Inr data_begin \<Rightarrow>
             let initial_capacity' = RoundDown initial_capacity (2 * kPageSize);
                 max_capacity' = RoundDown max_cap (2 * kPageSize);
                 data_size = max_capacity' div 2;
                 divider = data_begin + data_size
             in (case RemapAtEnd pf divider of
                   Inl error_str \<Rightarrow>
                     Inr (Inl (''Failed to create read write execute cache: '' @ error_str
                               @ '' size='' @ decimal max_capacity'))
                 | Inr code_begin \<Rightarrow>
                     let data_size' = initial_capacity' div 2;
                         code_size' = initial_capacity' - data_size'
                     in (case JitCodeCache_new cfg pf code_begin (max_cap - data_size)
                                data_begin data_size code_size' data_size' max_capacity' of
                           Inl e \<Rightarrow> Inl e
                         | Inr s \<Rightarrow> Inr (Inr s)))))"

subsection \<open>Reachable states\<close>

text \<open>
  One step is one locked block of some thread, with any arguments, that returns; the
  reachable states are those that steps lead to from a state that \<open>Create\<close> returns.
  The blocks may follow each other in any order, which allows every interleaving of the
  threads (and more), so that an invariant of the reachable states is one of the cache.
\<close>

inductive cache_step :: "config \<Rightarrow> JitCodeCache \<Rightarrow> JitCodeCache \<Rightarrow> bool" for cfg :: config where
  step_commit_allocate: "CommitCodeInternal_allocate cfg args s = Inr (r, s') \<Longrightarrow> cache_step cfg s s'"
| step_commit_publish: "CommitCodeInternal_publish cfg m code_ptr now s = Inr s' \<Longrightarrow> cache_step cfg s s'"
| step_reserve: "ReserveData_allocate cfg n s = Inr (r, s') \<Longrightarrow> cache_step cfg s s'"
| step_clear: "cache_step cfg s (ClearData d s)"
| step_profiling: "AddProfilingInfoInternal cfg m entries s = Inr (r, s') \<Longrightarrow> cache_step cfg s s'"
| step_remove: "RemoveMethodsIn cfg in_alloc s = Inr s' \<Longrightarrow> cache_step cfg s s'"
| step_gc_begin: "GarbageCollectCache_begin s = Inr s' \<Longrightarrow> cache_step cfg s s'"
| step_gc_decide: "GarbageCollectCache_decide cfg s = Inr (grown, s') \<Longrightarrow> cache_step cfg s s'"
| step_gc_reset: "cache_step cfg s (GarbageCollectCache_reset cfg s)"
| step_gc_mark: "MarkCode cfg frames s = Inr s' \<Longrightarrow> cache_step cfg s s'"
| step_gc_sweep: "GarbageCollectCache_sweep cfg s = Inr s' \<Longrightarrow> cache_step cfg s s'"

inductive reachable :: "config \<Rightarrow> JitCodeCache \<Rightarrow> bool" for cfg :: config where
  reachable_Create: "Create cfg pf initial_capacity max_cap = Inr (Inr s) \<Longrightarrow> reachable cfg s"
| reachable_step: "reachable cfg s \<Longrightarrow> cache_step cfg s s' \<Longrightarrow> reachable cfg s'"

subsection \<open>Invariants\<close>

text \<open>
  The chunks of an mspace lie inside its footprint limit and apart from each other; the
  capacities of the cache are ordered, aligned to two pages and bounded by 1 GB, and both
  mspaces have half of the current capacity as their footprint limit.
\<close>

fun apart :: "(addr \<times> nat) list \<Rightarrow> bool" where
  "apart [] = True"
| "apart (c # cs) =
     (list_all (\<lambda>d. fst c + snd c \<le> fst d \<or> fst d + snd d \<le> fst c) cs \<and> apart cs)"

definition mspace_inv :: "mspace \<Rightarrow> bool" where
  "mspace_inv ms \<longleftrightarrow>
     list_all (\<lambda>c. ms_base ms \<le> fst c \<and> fst c + snd c \<le> ms_base ms + footprint_limit ms) (chunks ms)
     \<and> apart (chunks ms)"

definition cache_inv :: "JitCodeCache \<Rightarrow> bool" where
  "cache_inv s \<longleftrightarrow>
     current_capacity s \<le> max_capacity s \<and> max_capacity s \<le> GB \<and>
     2 * kPageSize dvd current_capacity s \<and> 2 * kPageSize dvd max_capacity s \<and>
     footprint_limit (code_mspace s) = current_capacity s div 2 \<and>
     footprint_limit (data_mspace s) = current_capacity s div 2 \<and>
     mspace_inv (code_mspace s) \<and> mspace_inv (data_mspace s)"

text \<open>An mspace after some of its chunks have been freed, and a cache after such frees.\<close>

definition released :: "mspace \<Rightarrow> mspace \<Rightarrow> bool" where
  "released ms ms' \<longleftrightarrow>
     footprint_limit ms' = footprint_limit ms \<and> ms_base ms' = ms_base ms \<and>
     (\<exists>P. chunks ms' = filter P (chunks ms))"

definition shrinks :: "JitCodeCache \<Rightarrow> JitCodeCache \<Rightarrow> bool" where
  "shrinks s s' \<longleftrightarrow>
     current_capacity s' = current_capacity s \<and> max_capacity s' = max_capacity s \<and>
     released (code_mspace s) (code_mspace s') \<and> released (data_mspace s) (data_mspace s')"

text \<open>The addresses that the chunks of an mspace occupy, and whether a chunk starts at an address.\<close>

definition cover :: "(addr \<times> nat) list \<Rightarrow> nat set" where
  "cover cs = (\<Union>c \<in> set cs. {fst c ..< fst c + snd c})"

definition allocated :: "mspace \<Rightarrow> addr \<Rightarrow> bool" where
  "allocated ms a \<longleftrightarrow> a \<in> fst ` set (chunks ms)"

text \<open>
  The capacity after a growth: twice the current one below 1 MB, 1 MB more otherwise, and
  at most the maximum.
\<close>

definition grown_capacity :: "JitCodeCache \<Rightarrow> nat" where
  "grown_capacity s =
     min (max_capacity s)
       (if current_capacity s < MB then 2 * current_capacity s else current_capacity s + MB)"

text \<open>
  An entry of the map is live when the bit of its allocation is set; the sweep does one
  of two things to an entry; the events that the collector logs for an entry.
\<close>

definition live_entry :: "config \<Rightarrow> addr set \<Rightarrow> addr \<times> ArtMethod \<Rightarrow> bool" where
  "live_entry cfg bitmap it \<longleftrightarrow> FromCodeToAllocation cfg (fst it) \<in> bitmap"

definition sweep_entry :: "config \<Rightarrow> addr set \<Rightarrow> addr \<times> ArtMethod \<Rightarrow> JitCodeCache \<Rightarrow> JitCodeCache" where
  "sweep_entry cfg bm it s =
     (if live_entry cfg bm it then UpdateMethodsCode (snd it) (GetEntryPoint cfg (fst it)) s
      else FreeCode cfg (fst it) (ClearCounter (snd it) s))"

definition restored :: "config \<Rightarrow> addr \<times> ArtMethod \<Rightarrow> event" where
  "restored cfg it = MethodsCodeUpdated (snd it) (GetEntryPoint cfg (fst it))"

definition bridged :: "config \<Rightarrow> addr \<times> ArtMethod \<Rightarrow> event" where
  "bridged cfg it = MethodsCodeUpdated (snd it) (GetQuickToInterpreterBridge cfg)"

text \<open>The events that a run from \<open>s\<close> to \<open>s'\<close> has appended to the log.\<close>

definition new_events :: "JitCodeCache \<Rightarrow> JitCodeCache \<Rightarrow> event list" where
  "new_events s s' = drop (length (trace s)) (trace s')"

text \<open>
  The state in which a collecting cycle that starts in \<open>s\<close> enters its sweep: the cycle is
  announced, the bitmap is created, the entry points and profiling pointers are reset and
  the frames are marked.
\<close>

definition before_sweep :: "config \<Rightarrow> addr option list \<Rightarrow> JitCodeCache \<Rightarrow> JitCodeCache" where
  "before_sweep cfg frames s =
     (let s3 = GarbageCollectCache_reset cfg
                 ((log CollectionStarted (s\<lparr>collection_in_progress := True\<rparr>))\<lparr>live_bitmap := Some {}\<rparr>)
      in s3\<lparr>live_bitmap := Some (fold (VisitFrame cfg s3) frames {})\<rparr>)"

text \<open>
  The answers of the allocator in a list of events, in their order, and the number of
  collector cycles started in it.  A facade operation retries at most once when its events
  are one allocation that succeeded and no cycle, or an allocation that failed, one cycle
  and one more allocation.
\<close>

definition allocations :: "event list \<Rightarrow> addr option list" where
  "allocations ev = concat (map (\<lambda>e. case e of Allocate rg n r \<Rightarrow> [r] | _ \<Rightarrow> []) ev)"

definition cycles :: "event list \<Rightarrow> nat" where
  "cycles ev = length (filter (\<lambda>e. e = CollectionStarted) ev)"

definition at_most_one_retry :: "event list \<Rightarrow> addr option \<Rightarrow> bool" where
  "at_most_one_retry ev last_answer \<longleftrightarrow>
     (cycles ev = 0 \<and> allocations ev = [last_answer] \<and> last_answer \<noteq> None)
     \<or> (cycles ev = 1 \<and> allocations ev = [None, last_answer])"

text \<open>
  The lookup in the words of the specification (section 4.3 and claim C4), for comparison
  with \<open>LookupMethodHeader\<close>: the entry with the greatest start address that is not above
  the program counter, which in the order of the keys is the last such entry, and its
  header if the header contains the program counter.
\<close>

definition LookupHeader_as_claimed :: "config \<Rightarrow> addr \<Rightarrow> JitCodeCache \<Rightarrow> addr option" where
  "LookupHeader_as_claimed cfg pc s =
     (case filter (\<lambda>e. fst e \<le> pc) (method_code_map s) of
        [] \<Rightarrow> None
      | e # es \<Rightarrow>
          let code_ptr = fst (last (e # es))
          in if Contains (method_headers s code_ptr) code_ptr pc
             then Some (FromCodePointer cfg code_ptr) else None)"

subsection \<open>A configuration and states for the examples\<close>

text \<open>
  A 32-bit platform that is not ARM, with headers of 28 bytes aligned to 16, and an
  allocator that places every block at the first aligned address above all live chunks.
  \<open>MapAnonymous\<close> gives the address 65536; on the second platform it fails.
\<close>

definition top_place :: placement where
  "top_place ms al n =
     Some (RoundDown (fold (\<lambda>c t. max t (fst c + snd c)) (chunks ms) (ms_base ms) + al - 1) al)"

definition example_config :: config where
  "example_config =
     \<lparr>pointer_bits = 32, kRuntimeISA_is_kArm = False, instruction_set_alignment = 16,
      sizeof_OatQuickMethodHeader = 28, sizeof_ProfilingInfo = 16, sizeof_InlineCache = 24,
      GetQuickToInterpreterBridge = 4096, GetEntryPoint = (\<lambda>code. code), place = top_place,
      mprotect_ok = True\<rparr>"

definition example_platform :: platform where
  "example_platform =
     \<lparr>MapAnonymous = (\<lambda>n. Inr 65536), RemapAtEnd = (\<lambda>divider. Inr divider),
      create_mspace_with_base_ok = (\<lambda>base capacity. True), PrettySize = decimal,
      initial_entry_points = (\<lambda>m. 4096), initial_hotness = (\<lambda>m. 7)\<rparr>"

definition failing_platform :: platform where
  "failing_platform = example_platform\<lparr>MapAnonymous := (\<lambda>n. Inl ''mmap failed'')\<rparr>"

text \<open>
  The cache that \<open>Create\<close> returns for an initial capacity of 16 KiB and a maximum of
  64 KiB; the same cache after its first cycle (a sweep), after the announcement of the
  second cycle, and after the second cycle (a growth to 32 KiB).
\<close>

definition fresh_cache :: JitCodeCache where
  "fresh_cache =
     \<lparr>collection_in_progress = False, code_map_begin = 98304, code_map_size = 32768,
      data_map_begin = 65536, data_map_size = 32768, max_capacity = 65536,
      current_capacity = 16384,
      code_mspace = \<lparr>footprint_limit = 8192, ms_base = 98304, chunks = []\<rparr>,
      data_mspace = \<lparr>footprint_limit = 8192, ms_base = 65536, chunks = []\<rparr>,
      method_code_map = [], profiling_infos = [], live_bitmap = None,
      has_done_one_collection = False, last_update_time_ns = 0,
      method_headers = (\<lambda>c. zero_header),
      entry_point_from_quick_compiled_code = (\<lambda>m. 4096),
      profiling_info = (\<lambda>m. None), hotness_count = (\<lambda>m. 7), trace = []\<rparr>"

definition collected_cache :: JitCodeCache where
  "collected_cache = fresh_cache\<lparr>has_done_one_collection := True, trace := [CollectionStarted, Swept]\<rparr>"

definition announced_cache :: JitCodeCache where
  "announced_cache =
     collected_cache\<lparr>collection_in_progress := True,
       trace := [CollectionStarted, Swept, CollectionStarted]\<rparr>"

definition grown_cache :: JitCodeCache where
  "grown_cache =
     collected_cache\<lparr>current_capacity := 32768,
       data_mspace := \<lparr>footprint_limit = 16384, ms_base = 65536, chunks = []\<rparr>,
       code_mspace := \<lparr>footprint_limit = 16384, ms_base = 98304, chunks = []\<rparr>,
       has_done_one_collection := False,
       trace := [CollectionStarted, Swept, CollectionStarted, CapacityIncreased 32768]\<rparr>"

text \<open>
  A cache with the code of method 1 at 98336 and of method 2 at 98464 (headers at 98304
  and 98432), a vmap table of method 2 at 65536 and a profiling record of method 1 at
  65600; and the same cache after a collecting cycle that found the code of method 1 on a
  stack.
\<close>

definition busy_cache :: JitCodeCache where
  "busy_cache =
     \<lparr>collection_in_progress = False, code_map_begin = 98304, code_map_size = 32768,
      data_map_begin = 65536, data_map_size = 32768, max_capacity = 65536,
      current_capacity = 16384,
      code_mspace = \<lparr>footprint_limit = 8192, ms_base = 98304,
                      chunks = [(98432, 96), (98304, 96)]\<rparr>,
      data_mspace = \<lparr>footprint_limit = 8192, ms_base = 65536,
                      chunks = [(65600, 40), (65536, 64)]\<rparr>,
      method_code_map = [(98336, 1), (98464, 2)],
      profiling_infos = [(65600, 1)],
      live_bitmap = None,
      has_done_one_collection = False, last_update_time_ns = 5,
      method_headers = (\<lambda>c. zero_header)
        (98336 := zero_header\<lparr>code_size := 64\<rparr>,
         98464 := zero_header\<lparr>vmap_table_offset := 32928, code_size := 64\<rparr>),
      entry_point_from_quick_compiled_code = (\<lambda>m. 4096)(1 := 98336, 2 := 98464),
      profiling_info = (\<lambda>m. None)(1 := Some 65600),
      hotness_count = (\<lambda>m. 7),
      trace = []\<rparr>"

definition swept_cache :: JitCodeCache where
  "swept_cache =
     busy_cache\<lparr>
      code_mspace := \<lparr>footprint_limit = 8192, ms_base = 98304, chunks = [(98304, 96)]\<rparr>,
      data_mspace := \<lparr>footprint_limit = 8192, ms_base = 65536, chunks = []\<rparr>,
      method_code_map := [(98336, 1)],
      profiling_infos := [],
      has_done_one_collection := True,
      entry_point_from_quick_compiled_code := (\<lambda>m. 4096)(1 := 98336, 2 := 4096),
      profiling_info := (\<lambda>m. None),
      hotness_count := (\<lambda>m. 7)(2 := 0),
      trace := [CollectionStarted, MethodsCodeUpdated 1 4096, MethodsCodeUpdated 2 4096,
                MethodsCodeUpdated 1 98336, Swept]\<rparr>"

text \<open>
  Arguments of a commit that is too large for the code region, and the fresh cache after
  that commit has failed; the fresh cache after a reservation of 64 bytes, and after the
  attachment of a profiling record to method 1.
\<close>

definition big_args :: commit_args where
  "big_args = \<lparr>arg_method = 3, arg_mapping_table = None, arg_vmap_table = None,
     arg_gc_map = None, arg_frame_size_in_bytes = 64, arg_core_spill_mask = 0,
     arg_fp_spill_mask = 0, arg_code_size = 100000\<rparr>"

definition exhausted_cache :: JitCodeCache where
  "exhausted_cache =
     fresh_cache\<lparr>has_done_one_collection := True,
       trace := [Allocate CodeRegion 100032 None, CollectionStarted, Swept,
                 Allocate CodeRegion 100032 None]\<rparr>"

definition reserved_cache :: JitCodeCache where
  "reserved_cache =
     fresh_cache\<lparr>data_mspace := \<lparr>footprint_limit = 8192, ms_base = 65536, chunks = [(65536, 64)]\<rparr>,
       trace := [Allocate DataRegion 64 (Some 65536)]\<rparr>"

definition profiled_cache :: JitCodeCache where
  "profiled_cache =
     fresh_cache\<lparr>data_mspace := \<lparr>footprint_limit = 8192, ms_base = 65536, chunks = [(65536, 64)]\<rparr>,
       profiling_infos := [(65536, 1)],
       profiling_info := (\<lambda>m. None)(1 := Some 65536),
       trace := [Allocate DataRegion 64 (Some 65536)]\<rparr>"

text \<open>
  Arguments of a commit of 64 bytes for method 1; the fresh cache after the first block of
  that commit, and after another thread has then announced a collection.
\<close>

definition small_args :: commit_args where
  "small_args = \<lparr>arg_method = 1, arg_mapping_table = None, arg_vmap_table = None,
     arg_gc_map = None, arg_frame_size_in_bytes = 64, arg_core_spill_mask = 0,
     arg_fp_spill_mask = 0, arg_code_size = 64\<rparr>"

definition allocated_cache :: JitCodeCache where
  "allocated_cache =
     fresh_cache\<lparr>
       code_mspace := \<lparr>footprint_limit = 8192, ms_base = 98304, chunks = [(98304, 96)]\<rparr>,
       method_headers := (\<lambda>c. zero_header)
         (98336 := zero_header\<lparr>frame_size_in_bytes := 64, code_size := 64\<rparr>),
       trace := [Allocate CodeRegion 96 (Some 98304)]\<rparr>"

definition waiting_cache :: JitCodeCache where
  "waiting_cache =
     allocated_cache\<lparr>collection_in_progress := True,
       trace := [Allocate CodeRegion 96 (Some 98304), CollectionStarted]\<rparr>"

section \<open>Properties\<close>

subsection \<open>The allocator\<close>

text \<open>
  Chunks that are apart and inside the footprint limit stay so when a block is placed or
  freed or the limit is raised, and their sizes add up to the footprint limit at most.
\<close>

lemma wrap_id: "n < 2 ^ pointer_bits cfg \<Longrightarrow> wrap cfg n = n"
  by (simp add: wrap_def)

lemma wrap_fits: "32 \<le> pointer_bits cfg \<Longrightarrow> n < 2 ^ 32 \<Longrightarrow> wrap cfg n = n"
proof -
  assume b: "32 \<le> pointer_bits cfg" and n: "n < 2 ^ 32"
  have "(2::nat) ^ 32 \<le> 2 ^ pointer_bits cfg"
    using b by (intro power_increasing) simp_all
  with n have "n < 2 ^ pointer_bits cfg" by linarith
  then show ?thesis by (rule wrap_id)
qed

lemma apart_filter: "apart cs \<Longrightarrow> apart (filter P cs)"
  by (induction cs) (auto simp: list_all_iff)

lemma released_refl: "released ms ms"
  unfolding released_def by (auto intro: exI [of _ "\<lambda>c. True"])

lemma released_trans: "released a b \<Longrightarrow> released b c \<Longrightarrow> released a c"
  unfolding released_def by (auto simp: filter_filter)

lemma released_free: "released ms (mspace_free ms p)"
  unfolding released_def mspace_free_def by auto

lemma released_inv: "mspace_inv ms \<Longrightarrow> released ms ms' \<Longrightarrow> mspace_inv ms'"
  unfolding released_def mspace_inv_def by (auto simp: list_all_iff apart_filter)

lemma released_chunks: "released ms ms' \<Longrightarrow> set (chunks ms') \<subseteq> set (chunks ms)"
  unfolding released_def by auto

lemma released_allocated: "released ms ms' \<Longrightarrow> allocated ms' a \<Longrightarrow> allocated ms a"
  unfolding released_def allocated_def by auto

lemma free_not_allocated: "\<not> allocated (mspace_free ms p) p"
  by (auto simp: allocated_def mspace_free_def)

lemma memalign_inv:
  assumes "mspace_inv ms" "mspace_memalign pl ms al n = (r, ms')"
  shows "mspace_inv ms' \<and> footprint_limit ms' = footprint_limit ms \<and> ms_base ms' = ms_base ms"
  using assms unfolding mspace_memalign_def mspace_inv_def admissible_def
  by (fastforce split: option.splits if_splits simp: list_all_iff)

lemma malloc_inv:
  assumes "mspace_inv ms" "mspace_malloc pl ms n = (r, ms')"
  shows "mspace_inv ms' \<and> footprint_limit ms' = footprint_limit ms \<and> ms_base ms' = ms_base ms"
  using assms memalign_inv unfolding mspace_malloc_def by blast

lemma set_limit_inv:
  "mspace_inv ms \<Longrightarrow> footprint_limit ms \<le> n \<Longrightarrow> mspace_inv (mspace_set_footprint_limit ms n)"
  unfolding mspace_inv_def mspace_set_footprint_limit_def by (auto simp: list_all_iff)

lemma finite_cover: "finite (cover cs)" by (simp add: cover_def)

lemma card_cover: "apart cs \<Longrightarrow> card (cover cs) = sum_list (map snd cs)"
proof (induction cs)
  case Nil
  then show ?case by (simp add: cover_def)
next
  case (Cons c cs)
  have split: "cover (c # cs) = {fst c ..< fst c + snd c} \<union> cover cs"
    by (simp add: cover_def)
  have disj: "{fst c ..< fst c + snd c} \<inter> cover cs = {}"
    using Cons.prems by (fastforce simp: cover_def list_all_iff)
  have "card (cover (c # cs)) = card {fst c ..< fst c + snd c} + card (cover cs)"
    unfolding split using disj by (intro card_Un_disjoint) (simp_all add: finite_cover)
  with Cons show ?case by simp
qed

lemma bytes_allocated_le: 
  assumes "mspace_inv ms" shows "bytes_allocated ms \<le> footprint_limit ms"
proof -
  have sub: "cover (chunks ms) \<subseteq> {ms_base ms ..< ms_base ms + footprint_limit ms}"
    using assms unfolding mspace_inv_def cover_def by (fastforce simp: list_all_iff)
  have "card (cover (chunks ms)) \<le> card {ms_base ms ..< ms_base ms + footprint_limit ms}"
    by (rule card_mono [OF _ sub]) simp
  moreover have "card (cover (chunks ms)) = bytes_allocated ms"
    using assms by (simp add: card_cover mspace_inv_def bytes_allocated_def)
  ultimately show ?thesis by simp
qed

subsection \<open>Blocks that only free\<close>

text \<open>
  The blocks that place nothing and leave the capacities alone: after them every mspace
  has its footprint limit and a part of its chunks.
\<close>

lemma shrinks_refl: "shrinks s s"
  by (simp add: shrinks_def released_refl)

lemma shrinks_trans: "shrinks a b \<Longrightarrow> shrinks b c \<Longrightarrow> shrinks a c"
  unfolding shrinks_def by (auto intro: released_trans)

lemma shrinks_inv:
  assumes "cache_inv s" "shrinks s s'"
  shows "cache_inv s'"
proof -
  have c: "mspace_inv (code_mspace s')"
    using assms released_inv [of "code_mspace s" "code_mspace s'"]
    by (simp add: shrinks_def cache_inv_def)
  have d: "mspace_inv (data_mspace s')"
    using assms released_inv [of "data_mspace s" "data_mspace s'"]
    by (simp add: shrinks_def cache_inv_def)
  show ?thesis
    using assms c d by (simp add: shrinks_def cache_inv_def released_def)
qed

lemma shrinks_allocated:
  "shrinks s s' \<Longrightarrow> allocated (code_mspace s') a \<Longrightarrow> allocated (code_mspace s) a"
  "shrinks s s' \<Longrightarrow> allocated (data_mspace s') a \<Longrightarrow> allocated (data_mspace s) a"
  unfolding shrinks_def using released_allocated by blast+

lemma shrinks_log [simp]: "shrinks s (log e s)"
  by (simp add: shrinks_def log_def released_refl)

lemma shrinks_UpdateMethodsCode [simp]: "shrinks s (UpdateMethodsCode m a s)"
  by (simp add: shrinks_def log_def UpdateMethodsCode_def released_refl)

lemma shrinks_ClearCounter [simp]: "shrinks s (ClearCounter m s)"
  by (simp add: shrinks_def ClearCounter_def released_refl)

lemma shrinks_SetProfilingInfo [simp]: "shrinks s (SetProfilingInfo m i s)"
  by (simp add: shrinks_def SetProfilingInfo_def released_refl)

lemma shrinks_free_data [simp]: "shrinks s (free_data p s)"
  by (cases p) (simp_all add: shrinks_def free_data_def released_refl released_free)

lemma free_data_freed: "\<not> allocated (data_mspace (free_data (Some p) s)) p"
  by (simp add: free_data_def free_not_allocated)

lemma shrinks_code_free: "shrinks s (s\<lparr>code_mspace := mspace_free (code_mspace s) a\<rparr>)"
  by (simp add: shrinks_def released_refl released_free)

lemma shrinks_FreeCode [simp]: "shrinks s (FreeCode cfg c s)"
proof -
  define s1 where "s1 = free_data (GetNativeGcMap cfg (method_headers s c) c) s"
  define s2 where "s2 = free_data (GetMappingTable cfg (method_headers s c) c) s1"
  define s3 where "s3 = (if vmap_table_offset (method_headers s c) \<noteq> 0
                then free_data (Some (ptr_minus cfg c (vmap_table_offset (method_headers s c)))) s2
                else s2)"
  have e: "FreeCode cfg c s = s3\<lparr>code_mspace := mspace_free (code_mspace s3) (FromCodeToAllocation cfg c)\<rparr>"
    by (simp add: FreeCode_def Let_def s1_def s2_def s3_def)
  have 1: "shrinks s s1" by (simp add: s1_def)
  have 2: "shrinks s1 s2" by (simp add: s2_def)
  have 3: "shrinks s2 s3" by (simp add: s3_def shrinks_refl)
  have 4: "shrinks s3 (FreeCode cfg c s)" unfolding e by (rule shrinks_code_free)
  show ?thesis using shrinks_trans [OF 1 shrinks_trans [OF 2 shrinks_trans [OF 3 4]]] .
qed

lemma shrinks_fold:
  assumes "\<And>x t. shrinks t (f x t)"
  shows "shrinks s (fold f xs s)"
proof (induction xs arbitrary: s)
  case Nil
  show ?case by (simp add: shrinks_refl)
next
  case (Cons x xs)
  show ?case using shrinks_trans [OF assms [of s x] Cons.IH [of "f x s"]] by simp
qed

lemma shrinks_sweep: "sweep cfg bm es s = (kept, s') \<Longrightarrow> shrinks s s'"
proof (induction es arbitrary: s kept)
  case Nil
  then show ?case by (simp add: shrinks_refl)
next
  case (Cons it rest)
  show ?case
  proof (cases "FromCodeToAllocation cfg (fst it) \<in> bm")
    case True
    with Cons.prems obtain k where
      "sweep cfg bm rest (UpdateMethodsCode (snd it) (GetEntryPoint cfg (fst it)) s) = (k, s')"
      by (auto split: prod.splits)
    from Cons.IH [OF this] show ?thesis
      using shrinks_trans shrinks_UpdateMethodsCode by blast
  next
    case False
    with Cons.prems have "sweep cfg bm rest (FreeCode cfg (fst it) (ClearCounter (snd it) s)) = (kept, s')"
      by simp
    from Cons.IH [OF this] show ?thesis
      using shrinks_trans shrinks_FreeCode shrinks_ClearCounter by blast
  qed
qed

lemma shrinks_field_update:
  "shrinks s (s\<lparr>method_code_map := k\<rparr>)"
  "shrinks s (s\<lparr>profiling_infos := i\<rparr>)"
  "shrinks s (s\<lparr>live_bitmap := b\<rparr>)"
  "shrinks s (s\<lparr>has_done_one_collection := h\<rparr>)"
  "shrinks s (s\<lparr>collection_in_progress := c\<rparr>)"
  "shrinks s (s\<lparr>last_update_time_ns := t\<rparr>)"
  by (simp_all add: shrinks_def released_refl)

lemma shrinks_free_profiling_infos: "shrinks s (free_profiling_infos s)"
  unfolding free_profiling_infos_def
  by (rule shrinks_trans [OF shrinks_fold shrinks_field_update(2)]) simp

lemma shrinks_remove_code: "remove_code cfg in_alloc es s = (kept, s') \<Longrightarrow> shrinks s s'"
proof (induction es arbitrary: s kept)
  case Nil
  then show ?case by (simp add: shrinks_refl)
next
  case (Cons it rest)
  show ?case
  proof (cases "in_alloc (snd it)")
    case True
    with Cons.prems have "remove_code cfg in_alloc rest (FreeCode cfg (fst it) s) = (kept, s')"
      by simp
    from Cons.IH [OF this] show ?thesis
      using shrinks_trans shrinks_FreeCode by blast
  next
    case False
    with Cons.prems obtain k where "remove_code cfg in_alloc rest s = (k, s')"
      by (auto split: prod.splits)
    from Cons.IH [OF this] show ?thesis .
  qed
qed

lemma shrinks_remove_infos: "remove_infos in_alloc is s = (kept, s') \<Longrightarrow> shrinks s s'"
proof (induction "is" arbitrary: s kept)
  case Nil
  then show ?case by (simp add: shrinks_refl)
next
  case (Cons info rest)
  show ?case
  proof (cases "in_alloc (snd info)")
    case True
    with Cons.prems have
      "remove_infos in_alloc rest (free_data (Some (fst info)) (SetProfilingInfo (snd info) None s)) = (kept, s')"
      by simp
    from Cons.IH [OF this] show ?thesis
      using shrinks_trans shrinks_free_data shrinks_SetProfilingInfo by blast
  next
    case False
    with Cons.prems obtain k where "remove_infos in_alloc rest s = (k, s')"
      by (auto split: prod.splits)
    from Cons.IH [OF this] show ?thesis .
  qed
qed

lemma shrinks_reset: "shrinks s (GarbageCollectCache_reset cfg s)"
  unfolding GarbageCollectCache_reset_def Let_def
  by (rule shrinks_trans [OF shrinks_fold shrinks_fold]) simp_all

lemma shrinks_RemoveMethodsIn: "RemoveMethodsIn cfg in_alloc s = Inr s' \<Longrightarrow> shrinks s s'"
proof -
  assume a: "RemoveMethodsIn cfg in_alloc s = Inr s'"
  obtain kept s1 where rc: "remove_code cfg in_alloc (method_code_map s) s = (kept, s1)"
    by (cases "remove_code cfg in_alloc (method_code_map s) s") auto
  define s2 where "s2 = s1\<lparr>method_code_map := kept\<rparr>"
  obtain infos s3 where ri: "remove_infos in_alloc (profiling_infos s2) s2 = (infos, s3)"
    by (cases "remove_infos in_alloc (profiling_infos s2) s2") auto
  have s': "s' = s3\<lparr>profiling_infos := infos\<rparr>"
    using a rc ri unfolding RemoveMethodsIn_def Let_def s2_def by (auto split: if_splits)
  have 1: "shrinks s s2"
    unfolding s2_def using shrinks_trans [OF shrinks_remove_code [OF rc] shrinks_field_update(1)] .
  have 2: "shrinks s2 s'"
    unfolding s' using shrinks_trans [OF shrinks_remove_infos [OF ri] shrinks_field_update(2)] .
  show ?thesis using shrinks_trans [OF 1 2] .
qed

lemma shrinks_MarkCode: "MarkCode cfg frames s = Inr s' \<Longrightarrow> shrinks s s'"
  unfolding MarkCode_def
  by (auto split: option.splits if_splits simp: shrinks_refl shrinks_field_update)

lemma shrinks_begin: "GarbageCollectCache_begin s = Inr s' \<Longrightarrow> shrinks s s'"
  unfolding GarbageCollectCache_begin_def
  by (auto split: if_splits simp: shrinks_def log_def released_refl)

lemma shrinks_publish: "CommitCodeInternal_publish cfg m c now s = Inr s' \<Longrightarrow> shrinks s s'"
  unfolding CommitCodeInternal_publish_def Let_def
  by (auto split: if_splits option.splits simp: shrinks_def UpdateMethodsCode_def log_def released_refl)

lemma shrinks_NotifyCollectionDone: "shrinks s (NotifyCollectionDone s)"
  by (simp add: NotifyCollectionDone_def shrinks_field_update)

lemma shrinks_ClearData: "shrinks s (ClearData d s)"
  by (simp add: ClearData_def shrinks_def released_refl released_free)

lemma shrinks_sweep_block: "GarbageCollectCache_sweep cfg s = Inr s' \<Longrightarrow> shrinks s s'"
proof -
  assume a: "GarbageCollectCache_sweep cfg s = Inr s'"
  define bm where "bm = (case live_bitmap s of None \<Rightarrow> {} | Some b \<Rightarrow> b)"
  obtain kept s1 where sw: "sweep cfg bm (method_code_map s) s = (kept, s1)"
    by (cases "sweep cfg bm (method_code_map s) s") auto
  define s2 where "s2 = free_profiling_infos (s1\<lparr>method_code_map := kept\<rparr>)"
  have s': "s' = NotifyCollectionDone (log Swept (s2\<lparr>live_bitmap := None, has_done_one_collection := True\<rparr>))"
    using a sw unfolding GarbageCollectCache_sweep_def Let_def bm_def s2_def
    by (auto split: if_splits)
  have 1: "shrinks s s2"
    unfolding s2_def
    using shrinks_trans [OF shrinks_sweep [OF sw]
        shrinks_trans [OF shrinks_field_update(1) shrinks_free_profiling_infos]] .
  have 2: "shrinks s2 s'"
    unfolding s' by (simp add: shrinks_def NotifyCollectionDone_def log_def released_refl)
  show ?thesis using shrinks_trans [OF 1 2] .
qed

subsection \<open>Capacity and the invariant\<close>

text \<open>
  With pointers of at least 32 bits the arithmetic of \<open>IncreaseCodeCacheCapacity\<close> does not
  wrap below 1 GB; \<open>Create\<close> establishes the invariant and every block keeps it, with the
  maximum capacity fixed and the current capacity not lowered.
\<close>

lemma MB_val: "MB = 1048576" by (simp add: MB_def KB_def)

lemma GB_val: "GB = 1073741824" by (simp add: GB_def KB_def)

lemma pages_dvd_MB: "2 * kPageSize dvd MB"
  by (simp add: MB_val kPageSize_def)

lemma SetFootprintLimit_Inr:
  "SetFootprintLimit cfg n s = Inr s' \<Longrightarrow>
     mprotect_ok cfg \<and>
     s' = s\<lparr>data_mspace := mspace_set_footprint_limit (data_mspace s) (n div 2),
            code_mspace := mspace_set_footprint_limit (code_mspace s) (n div 2)\<rparr>"
  by (auto simp: SetFootprintLimit_def Let_def split: if_splits)

lemma Increase_capacity:
  assumes inv: "cache_inv s" and bits: "32 \<le> pointer_bits cfg"
    and inc: "IncreaseCodeCacheCapacity cfg s = Inr (grown, s')"
  shows "grown \<longleftrightarrow> current_capacity s < max_capacity s"
    and "grown \<Longrightarrow> s' = s\<lparr>current_capacity := grown_capacity s,
            data_mspace := mspace_set_footprint_limit (data_mspace s) (grown_capacity s div 2),
            code_mspace := mspace_set_footprint_limit (code_mspace s) (grown_capacity s div 2)\<rparr>"
    and "\<not> grown \<Longrightarrow> s' = s"
proof -
  have le: "current_capacity s \<le> max_capacity s" and gb: "max_capacity s \<le> GB"
    using inv by (simp_all add: cache_inv_def)
  have w1: "current_capacity s < MB \<Longrightarrow> wrap cfg (current_capacity s * 2) = current_capacity s * 2"
    using bits by (intro wrap_fits) (simp_all add: MB_val)
  have w2: "wrap cfg (current_capacity s + 1 * MB) = current_capacity s + MB"
    using bits le gb by (simp add: wrap_fits MB_val GB_val)
  show "grown \<longleftrightarrow> current_capacity s < max_capacity s"
    using inc le by (auto simp: IncreaseCodeCacheCapacity_def Let_def split: if_splits sum.splits)
  show "\<not> grown \<Longrightarrow> s' = s"
    using inc by (auto simp: IncreaseCodeCacheCapacity_def Let_def split: if_splits sum.splits)
  show "s' = s\<lparr>current_capacity := grown_capacity s,
            data_mspace := mspace_set_footprint_limit (data_mspace s) (grown_capacity s div 2),
            code_mspace := mspace_set_footprint_limit (code_mspace s) (grown_capacity s div 2)\<rparr>"
    if grown
  proof -
    have ne: "current_capacity s \<noteq> max_capacity s"
      using inc that by (auto simp: IncreaseCodeCacheCapacity_def split: if_splits)
    define c1 where "c1 = (if current_capacity s < 1 * MB then wrap cfg (current_capacity s * 2)
                  else wrap cfg (current_capacity s + 1 * MB))"
    define c2 where "c2 = (if c1 > max_capacity s then max_capacity s else c1)"
    have c2: "c2 = grown_capacity s"
      using w1 w2 by (auto simp: c2_def c1_def grown_capacity_def min_def)
    have "SetFootprintLimit cfg c2 (s\<lparr>current_capacity := c2\<rparr>) = Inr s'"
      using inc ne unfolding IncreaseCodeCacheCapacity_def Let_def c1_def c2_def
      by (auto split: sum.splits)
    from SetFootprintLimit_Inr [OF this] show ?thesis
      by (simp add: c2)
  qed
qed

lemma grown_capacity_bounds:
  assumes "cache_inv s"
  shows "current_capacity s \<le> grown_capacity s" "grown_capacity s \<le> max_capacity s"
    "2 * kPageSize dvd grown_capacity s"
proof -
  have le: "current_capacity s \<le> max_capacity s"
    and d1: "2 * kPageSize dvd current_capacity s" and d2: "2 * kPageSize dvd max_capacity s"
    using assms by (simp_all add: cache_inv_def)
  show "current_capacity s \<le> grown_capacity s" using le by (simp add: grown_capacity_def)
  show "grown_capacity s \<le> max_capacity s" by (simp add: grown_capacity_def)
  have "2 * kPageSize dvd 2 * current_capacity s" by (rule dvd_mult [OF d1])
  moreover have "2 * kPageSize dvd current_capacity s + MB" using d1 pages_dvd_MB by simp
  ultimately show "2 * kPageSize dvd grown_capacity s"
    using d2 by (simp add: grown_capacity_def min_def)
qed

lemma Increase_inv:
  assumes inv: "cache_inv s" and bits: "32 \<le> pointer_bits cfg"
    and inc: "IncreaseCodeCacheCapacity cfg s = Inr (grown, s')"
  shows "cache_inv s' \<and> current_capacity s \<le> current_capacity s' \<and> max_capacity s' = max_capacity s"
proof (cases grown)
  case False
  with Increase_capacity(3) [OF assms] inv show ?thesis by simp
next
  case True
  note s' = Increase_capacity(2) [OF assms True]
  note b = grown_capacity_bounds [OF inv]
  have "footprint_limit (code_mspace s) \<le> grown_capacity s div 2"
    "footprint_limit (data_mspace s) \<le> grown_capacity s div 2"
    using inv b(1) by (simp_all add: cache_inv_def div_le_mono)
  then have "mspace_inv (mspace_set_footprint_limit (code_mspace s) (grown_capacity s div 2))"
    "mspace_inv (mspace_set_footprint_limit (data_mspace s) (grown_capacity s div 2))"
    using inv by (simp_all add: cache_inv_def set_limit_inv)
  then show ?thesis
    using inv b unfolding s' by (simp add: cache_inv_def mspace_set_footprint_limit_def)
qed

lemma cache_inv_fields:
  assumes "cache_inv s"
    "current_capacity s' = current_capacity s" "max_capacity s' = max_capacity s"
    "mspace_inv (code_mspace s')" "footprint_limit (code_mspace s') = footprint_limit (code_mspace s)"
    "mspace_inv (data_mspace s')" "footprint_limit (data_mspace s') = footprint_limit (data_mspace s)"
  shows "cache_inv s'"
  using assms by (simp add: cache_inv_def)

lemma allocate_inv:
  assumes inv: "cache_inv s" and a: "CommitCodeInternal_allocate cfg args s = Inr (r, s')"
  shows "cache_inv s' \<and> current_capacity s' = current_capacity s \<and> max_capacity s' = max_capacity s"
proof -
  define n where "n = wrap cfg (header_size cfg + arg_code_size args)"
  obtain p ms where m: "mspace_memalign (place cfg) (code_mspace s) (instruction_set_alignment cfg) n = (p, ms)"
    by (cases "mspace_memalign (place cfg) (code_mspace s) (instruction_set_alignment cfg) n") auto
  have ci: "mspace_inv (code_mspace s)" using inv by (simp add: cache_inv_def)
  note mi = memalign_inv [OF ci m]
  have f: "current_capacity s' = current_capacity s" "max_capacity s' = max_capacity s"
    "data_mspace s' = data_mspace s" "code_mspace s' = ms \<or> code_mspace s' = code_mspace s"
    using a m unfolding CommitCodeInternal_allocate_def Let_def n_def
    by (auto split: if_splits option.splits simp: log_def)
  show ?thesis
    using cache_inv_fields [OF inv f(1) f(2)] f mi inv by (auto simp: cache_inv_def)
qed

lemma reserve_inv:
  assumes inv: "cache_inv s" and a: "ReserveData_allocate cfg n s = Inr (r, s')"
  shows "cache_inv s' \<and> current_capacity s' = current_capacity s \<and> max_capacity s' = max_capacity s"
proof -
  obtain p ms where m: "mspace_malloc (place cfg) (data_mspace s) n = (p, ms)"
    by (cases "mspace_malloc (place cfg) (data_mspace s) n") auto
  have ci: "mspace_inv (data_mspace s)" using inv by (simp add: cache_inv_def)
  note mi = malloc_inv [OF ci m]
  have f: "current_capacity s' = current_capacity s" "max_capacity s' = max_capacity s"
    "code_mspace s' = code_mspace s" "data_mspace s' = ms"
    using a m unfolding ReserveData_allocate_def
    by (auto split: if_splits simp: log_def)
  show ?thesis
    using f mi inv by (auto simp: cache_inv_def)
qed

lemma profiling_inv:
  assumes inv: "cache_inv s" and a: "AddProfilingInfoInternal cfg m es s = Inr (r, s')"
  shows "cache_inv s' \<and> current_capacity s' = current_capacity s \<and> max_capacity s' = max_capacity s"
proof -
  define n where "n = RoundUp cfg (wrap cfg (sizeof_ProfilingInfo cfg
                                   + wrap cfg (sizeof_InlineCache cfg * length es)))
              (sizeof_pointer cfg)"
  obtain p ms where m: "mspace_malloc (place cfg) (data_mspace s) n = (p, ms)"
    by (cases "mspace_malloc (place cfg) (data_mspace s) n") auto
  have ci: "mspace_inv (data_mspace s)" using inv by (simp add: cache_inv_def)
  note mi = malloc_inv [OF ci m]
  have f: "current_capacity s' = current_capacity s" "max_capacity s' = max_capacity s"
    "code_mspace s' = code_mspace s" "data_mspace s' = ms \<or> data_mspace s' = data_mspace s"
    using a m unfolding AddProfilingInfoInternal_def Let_def n_def
    by (auto split: if_splits option.splits simp: log_def SetProfilingInfo_def)
  show ?thesis
    using f mi inv by (auto simp: cache_inv_def)
qed

lemma decide_inv:
  assumes inv: "cache_inv s" and bits: "32 \<le> pointer_bits cfg"
    and a: "GarbageCollectCache_decide cfg s = Inr (grown, s')"
  shows "cache_inv s' \<and> current_capacity s \<le> current_capacity s' \<and> max_capacity s' = max_capacity s"
proof (cases "has_done_one_collection s")
  case False
  with a have "s' = s\<lparr>live_bitmap := Some {}\<rparr>"
    by (simp add: GarbageCollectCache_decide_def)
  with inv show ?thesis by (simp add: cache_inv_def)
next
  case True
  obtain g s1 where i: "IncreaseCodeCacheCapacity cfg s = Inr (g, s1)"
    using a True by (auto simp: GarbageCollectCache_decide_def split: sum.splits)
  note ii = Increase_inv [OF inv bits i]
  have "s' = NotifyCollectionDone (log (CapacityIncreased (current_capacity s1))
                               (s1\<lparr>has_done_one_collection := False\<rparr>))
       \<or> s' = s1\<lparr>live_bitmap := Some {}\<rparr>"
    using a True i by (auto simp: GarbageCollectCache_decide_def split: if_splits)
  then show ?thesis
    using ii by (auto simp: cache_inv_def NotifyCollectionDone_def log_def)
qed

lemma shrinks_step:
  "cache_inv s \<Longrightarrow> shrinks s s' \<Longrightarrow>
     cache_inv s' \<and> current_capacity s \<le> current_capacity s' \<and> max_capacity s' = max_capacity s"
  using shrinks_inv by (auto simp: shrinks_def)

lemma step_inv:
  assumes "cache_inv s" "32 \<le> pointer_bits cfg" "cache_step cfg s s'"
  shows "cache_inv s' \<and> current_capacity s \<le> current_capacity s' \<and> max_capacity s' = max_capacity s"
  using assms(3)
proof cases
  case (step_commit_allocate args r)
  then show ?thesis using allocate_inv [OF assms(1)] by fastforce
next
  case (step_commit_publish m code_ptr now)
  then show ?thesis using shrinks_step [OF assms(1) shrinks_publish] by blast
next
  case (step_reserve n r)
  then show ?thesis using reserve_inv [OF assms(1)] by fastforce
next
  case (step_clear d)
  then show ?thesis using shrinks_step [OF assms(1) shrinks_ClearData] by blast
next
  case (step_profiling m entries r)
  then show ?thesis using profiling_inv [OF assms(1)] by fastforce
next
  case (step_remove in_alloc)
  then show ?thesis using shrinks_step [OF assms(1) shrinks_RemoveMethodsIn] by blast
next
  case step_gc_begin
  then show ?thesis using shrinks_step [OF assms(1) shrinks_begin] by blast
next
  case (step_gc_decide grown)
  then show ?thesis using decide_inv [OF assms(1,2)] by blast
next
  case step_gc_reset
  then show ?thesis using shrinks_step [OF assms(1) shrinks_reset] by blast
next
  case (step_gc_mark frames)
  then show ?thesis using shrinks_step [OF assms(1) shrinks_MarkCode] by blast
next
  case step_gc_sweep
  then show ?thesis using shrinks_step [OF assms(1) shrinks_sweep_block] by blast
qed

lemma RoundDown_mono: "x \<le> y \<Longrightarrow> RoundDown x n \<le> RoundDown y n"
proof -
  assume "x \<le> y"
  then have "n * (x div n) \<le> n * (y div n)" by (simp add: div_le_mono)
  moreover have "RoundDown x n = n * (x div n)" "RoundDown y n = n * (y div n)"
    by (simp_all add: RoundDown_def minus_mod_eq_mult_div)
  ultimately show ?thesis by simp
qed

lemma RoundDown_dvd: "n dvd RoundDown x n"
  by (simp add: RoundDown_def dvd_minus_mod)

lemma RoundDown_le: "RoundDown x n \<le> x"
  by (simp add: RoundDown_def)

lemma new_inv:
  assumes "JitCodeCache_new cfg pf cb cs db ds (i - i div 2) (i div 2) m = Inr s"
    "i \<le> m" "m \<le> GB" "2 * kPageSize dvd i" "2 * kPageSize dvd m"
  shows "cache_inv s"
proof -
  have "mspace_inv (mspace_set_footprint_limit (create_mspace_with_base b c) l)" for b c l
    by (simp add: mspace_inv_def mspace_set_footprint_limit_def create_mspace_with_base_def)
  moreover have "i - i div 2 + i div 2 = i" by simp
  ultimately show ?thesis
    using assms unfolding JitCodeCache_new_def Let_def
    by (auto split: if_splits dest!: SetFootprintLimit_Inr
        simp: cache_inv_def mspace_set_footprint_limit_def create_mspace_with_base_def)
qed

lemma Create_inv:
  assumes "Create cfg pf i m = Inr (Inr s)"
  shows "cache_inv s"
proof -
  define i' where "i' = RoundDown i (2 * kPageSize)"
  define m' where "m' = RoundDown m (2 * kPageSize)"
  have c: "i \<le> m" "m \<le> GB"
    using assms by (auto simp: Create_def split: if_splits)
  obtain cb cs db ds where n: "JitCodeCache_new cfg pf cb cs db ds (i' - i' div 2) (i' div 2) m' = Inr s"
    using assms unfolding Create_def Let_def i'_def m'_def
    by (auto split: if_splits sum.splits)
  have "i' \<le> m'" using c(1) by (simp add: i'_def m'_def RoundDown_mono)
  moreover have "m' \<le> GB" using c(2) RoundDown_le [of m "2 * kPageSize"] by (simp add: m'_def)
  moreover have "2 * kPageSize dvd i'" "2 * kPageSize dvd m'"
    unfolding i'_def m'_def by (rule RoundDown_dvd)+
  ultimately show ?thesis using new_inv [OF n] by simp
qed

lemma reachable_inv:
  assumes "reachable cfg s" "32 \<le> pointer_bits cfg"
  shows "cache_inv s"
  using assms
proof (induction rule: reachable.induct)
  case (reachable_Create pf initial_capacity max_cap s)
  then show ?case using Create_inv by blast
next
  case (reachable_step s s')
  then show ?case using step_inv by blast
qed

subsection \<open>The sweep loop\<close>

text \<open>
  What the loop of the sweep leaves: the live entries, one call of \<open>UpdateMethodsCode\<close> for
  each of them, zero counters for the owners of dead entries, and no chunk at what
  \<open>FreeCode\<close> freed for a dead entry.
\<close>

lemma free_data_fields [simp]:
  "method_headers (free_data p s) = method_headers s"
  "entry_point_from_quick_compiled_code (free_data p s) = entry_point_from_quick_compiled_code s"
  "hotness_count (free_data p s) = hotness_count s"
  "profiling_info (free_data p s) = profiling_info s"
  "profiling_infos (free_data p s) = profiling_infos s"
  "method_code_map (free_data p s) = method_code_map s"
  "trace (free_data p s) = trace s"
  "code_mspace (free_data p s) = code_mspace s"
  "live_bitmap (free_data p s) = live_bitmap s"
  "collection_in_progress (free_data p s) = collection_in_progress s"
  "has_done_one_collection (free_data p s) = has_done_one_collection s"
  by (cases p; simp add: free_data_def)+

lemma FreeCode_fields [simp]:
  "method_headers (FreeCode cfg c s) = method_headers s"
  "entry_point_from_quick_compiled_code (FreeCode cfg c s) = entry_point_from_quick_compiled_code s"
  "hotness_count (FreeCode cfg c s) = hotness_count s"
  "profiling_info (FreeCode cfg c s) = profiling_info s"
  "profiling_infos (FreeCode cfg c s) = profiling_infos s"
  "method_code_map (FreeCode cfg c s) = method_code_map s"
  "trace (FreeCode cfg c s) = trace s"
  "live_bitmap (FreeCode cfg c s) = live_bitmap s"
  "collection_in_progress (FreeCode cfg c s) = collection_in_progress s"
  "has_done_one_collection (FreeCode cfg c s) = has_done_one_collection s"
  by (simp_all add: FreeCode_def Let_def)

lemma UpdateMethodsCode_fields [simp]:
  "method_headers (UpdateMethodsCode m a s) = method_headers s"
  "entry_point_from_quick_compiled_code (UpdateMethodsCode m a s)
     = (entry_point_from_quick_compiled_code s)(m := a)"
  "hotness_count (UpdateMethodsCode m a s) = hotness_count s"
  "profiling_info (UpdateMethodsCode m a s) = profiling_info s"
  "profiling_infos (UpdateMethodsCode m a s) = profiling_infos s"
  "method_code_map (UpdateMethodsCode m a s) = method_code_map s"
  "trace (UpdateMethodsCode m a s) = trace s @ [MethodsCodeUpdated m a]"
  "code_mspace (UpdateMethodsCode m a s) = code_mspace s"
  "data_mspace (UpdateMethodsCode m a s) = data_mspace s"
  "live_bitmap (UpdateMethodsCode m a s) = live_bitmap s"
  "collection_in_progress (UpdateMethodsCode m a s) = collection_in_progress s"
  "has_done_one_collection (UpdateMethodsCode m a s) = has_done_one_collection s"
  by (simp_all add: UpdateMethodsCode_def log_def)

lemma ClearCounter_fields [simp]:
  "method_headers (ClearCounter m s) = method_headers s"
  "entry_point_from_quick_compiled_code (ClearCounter m s) = entry_point_from_quick_compiled_code s"
  "hotness_count (ClearCounter m s) = (hotness_count s)(m := 0)"
  "profiling_info (ClearCounter m s) = profiling_info s"
  "profiling_infos (ClearCounter m s) = profiling_infos s"
  "method_code_map (ClearCounter m s) = method_code_map s"
  "trace (ClearCounter m s) = trace s"
  "code_mspace (ClearCounter m s) = code_mspace s"
  "data_mspace (ClearCounter m s) = data_mspace s"
  "live_bitmap (ClearCounter m s) = live_bitmap s"
  "collection_in_progress (ClearCounter m s) = collection_in_progress s"
  "has_done_one_collection (ClearCounter m s) = has_done_one_collection s"
  by (simp_all add: ClearCounter_def)

lemma SetProfilingInfo_fields [simp]:
  "method_headers (SetProfilingInfo m i s) = method_headers s"
  "entry_point_from_quick_compiled_code (SetProfilingInfo m i s) = entry_point_from_quick_compiled_code s"
  "hotness_count (SetProfilingInfo m i s) = hotness_count s"
  "profiling_info (SetProfilingInfo m i s) = (profiling_info s)(m := i)"
  "profiling_infos (SetProfilingInfo m i s) = profiling_infos s"
  "method_code_map (SetProfilingInfo m i s) = method_code_map s"
  "trace (SetProfilingInfo m i s) = trace s"
  "code_mspace (SetProfilingInfo m i s) = code_mspace s"
  "data_mspace (SetProfilingInfo m i s) = data_mspace s"
  "live_bitmap (SetProfilingInfo m i s) = live_bitmap s"
  "collection_in_progress (SetProfilingInfo m i s) = collection_in_progress s"
  "has_done_one_collection (SetProfilingInfo m i s) = has_done_one_collection s"
  by (simp_all add: SetProfilingInfo_def)

lemma FreeCode_frees:
  "\<not> allocated (code_mspace (FreeCode cfg c s)) (FromCodeToAllocation cfg c)"
  "GetNativeGcMap cfg (method_headers s c) c = Some p \<Longrightarrow> \<not> allocated (data_mspace (FreeCode cfg c s)) p"
  "GetMappingTable cfg (method_headers s c) c = Some p \<Longrightarrow> \<not> allocated (data_mspace (FreeCode cfg c s)) p"
  "vmap_table_offset (method_headers s c) \<noteq> 0 \<Longrightarrow>
     \<not> allocated (data_mspace (FreeCode cfg c s)) (ptr_minus cfg c (vmap_table_offset (method_headers s c)))"
  by (auto simp: FreeCode_def Let_def free_data_def allocated_def mspace_free_def split: option.splits)

lemma sweep_snd_Cons:
  "snd (sweep cfg bm (it # rest) s) = snd (sweep cfg bm rest (sweep_entry cfg bm it s))"
  by (simp add: sweep_entry_def live_entry_def case_prod_unfold Let_def)

lemma sweep_fst_Cons:
  "fst (sweep cfg bm (it # rest) s) =
     (if live_entry cfg bm it then it # fst (sweep cfg bm rest (sweep_entry cfg bm it s))
      else fst (sweep cfg bm rest (sweep_entry cfg bm it s)))"
  by (simp add: sweep_entry_def live_entry_def case_prod_unfold Let_def)

lemma sweep_snd_Nil: "snd (sweep cfg bm [] s) = s" by simp

lemma sweep_kept: "fst (sweep cfg bm es s) = filter (live_entry cfg bm) es"
  by (induction es arbitrary: s) (simp_all add: sweep_fst_Cons del: sweep.simps(2))

lemma sweep_trace:
  "trace (snd (sweep cfg bm es s)) = trace s @ map (restored cfg) (filter (live_entry cfg bm) es)"
  by (induction es arbitrary: s)
     (simp_all add: sweep_snd_Cons sweep_entry_def restored_def del: sweep.simps(2))

lemma sweep_fields:
  "method_headers (snd (sweep cfg bm es s)) = method_headers s"
  "profiling_info (snd (sweep cfg bm es s)) = profiling_info s"
  "profiling_infos (snd (sweep cfg bm es s)) = profiling_infos s"
  "method_code_map (snd (sweep cfg bm es s)) = method_code_map s"
  "live_bitmap (snd (sweep cfg bm es s)) = live_bitmap s"
  "collection_in_progress (snd (sweep cfg bm es s)) = collection_in_progress s"
  "has_done_one_collection (snd (sweep cfg bm es s)) = has_done_one_collection s"
  by (induction es arbitrary: s; simp add: sweep_snd_Cons sweep_entry_def del: sweep.simps(2))+

lemma sweep_hotness:
  "hotness_count (snd (sweep cfg bm es s)) m =
     (if \<exists>it \<in> set es. \<not> live_entry cfg bm it \<and> snd it = m then 0 else hotness_count s m)"
proof (induction es arbitrary: s)
  case Nil
  show ?case by simp
next
  case (Cons a es)
  show ?case
    unfolding sweep_snd_Cons Cons.IH by (auto simp: sweep_entry_def)
qed

lemma sweep_entry_untouched:
  "\<forall>it \<in> set es. live_entry cfg bm it \<longrightarrow> snd it \<noteq> m \<Longrightarrow>
     entry_point_from_quick_compiled_code (snd (sweep cfg bm es s)) m = entry_point_from_quick_compiled_code s m"
proof (induction es arbitrary: s)
  case Nil
  show ?case by simp
next
  case (Cons a es)
  from Cons.prems have rest: "\<forall>it \<in> set es. live_entry cfg bm it \<longrightarrow> snd it \<noteq> m"
    and a: "live_entry cfg bm a \<longrightarrow> snd a \<noteq> m" by simp_all
  show ?case
    unfolding sweep_snd_Cons Cons.IH [OF rest] using a by (auto simp: sweep_entry_def)
qed

lemma sweep_entry_restored:
  "\<exists>it \<in> set es. live_entry cfg bm it \<and> snd it = m \<Longrightarrow>
     \<exists>it \<in> set es. live_entry cfg bm it \<and> snd it = m \<and>
        entry_point_from_quick_compiled_code (snd (sweep cfg bm es s)) m = GetEntryPoint cfg (fst it)"
proof (induction es arbitrary: s)
  case Nil
  then show ?case by simp
next
  case (Cons a es)
  show ?case
  proof (cases "\<exists>it \<in> set es. live_entry cfg bm it \<and> snd it = m")
    case True
    from Cons.IH [OF True, of "sweep_entry cfg bm a s"] show ?thesis
      unfolding sweep_snd_Cons by auto
  next
    case False
    then have none: "\<forall>it \<in> set es. live_entry cfg bm it \<longrightarrow> snd it \<noteq> m" by blast
    from False Cons.prems have a: "live_entry cfg bm a" "snd a = m" by auto
    have "entry_point_from_quick_compiled_code (snd (sweep cfg bm (a # es) s)) m = GetEntryPoint cfg (fst a)"
      unfolding sweep_snd_Cons sweep_entry_untouched [OF none] using a by (simp add: sweep_entry_def)
    with a show ?thesis by auto
  qed
qed

lemma sweep_frees:
  assumes "it \<in> set es" "\<not> live_entry cfg bm it"
  shows "\<not> allocated (code_mspace (snd (sweep cfg bm es s))) (FromCodeToAllocation cfg (fst it))"
    and "GetNativeGcMap cfg (method_headers s (fst it)) (fst it) = Some p \<Longrightarrow>
           \<not> allocated (data_mspace (snd (sweep cfg bm es s))) p"
    and "GetMappingTable cfg (method_headers s (fst it)) (fst it) = Some p \<Longrightarrow>
           \<not> allocated (data_mspace (snd (sweep cfg bm es s))) p"
    and "vmap_table_offset (method_headers s (fst it)) \<noteq> 0 \<Longrightarrow>
           \<not> allocated (data_mspace (snd (sweep cfg bm es s)))
                (ptr_minus cfg (fst it) (vmap_table_offset (method_headers s (fst it))))"
proof -
  have "\<not> allocated (code_mspace (snd (sweep cfg bm es s))) (FromCodeToAllocation cfg (fst it))
      \<and> (GetNativeGcMap cfg (method_headers s (fst it)) (fst it) = Some p \<longrightarrow>
           \<not> allocated (data_mspace (snd (sweep cfg bm es s))) p)
      \<and> (GetMappingTable cfg (method_headers s (fst it)) (fst it) = Some p \<longrightarrow>
           \<not> allocated (data_mspace (snd (sweep cfg bm es s))) p)
      \<and> (vmap_table_offset (method_headers s (fst it)) \<noteq> 0 \<longrightarrow>
           \<not> allocated (data_mspace (snd (sweep cfg bm es s)))
                (ptr_minus cfg (fst it) (vmap_table_offset (method_headers s (fst it)))))"
    using assms
  proof (induction es arbitrary: s)
    case Nil
    then show ?case by simp
  next
    case (Cons a es)
    show ?case
    proof (cases "it = a")
      case True
      define t where "t = FreeCode cfg (fst a) (ClearCounter (snd a) s)"
      have sw: "snd (sweep cfg bm (a # es) s) = snd (sweep cfg bm es t)"
        using True Cons.prems by (simp add: sweep_snd_Cons sweep_entry_def t_def del: sweep.simps(2))
      have sh: "shrinks t (snd (sweep cfg bm es t))"
        by (rule shrinks_sweep [of cfg bm es t "fst (sweep cfg bm es t)"]) simp
      have hd: "method_headers (ClearCounter (snd a) s) = method_headers s" by simp
      note fr = FreeCode_frees [where cfg = cfg and c = "fst a" and s = "ClearCounter (snd a) s",
          unfolded hd, folded t_def]
      show ?thesis
        unfolding sw True using fr shrinks_allocated [OF sh] by blast
    next
      case False
      with Cons.prems have mem: "it \<in> set es" by simp
      show ?thesis
      proof (cases "live_entry cfg bm a")
        case True
        define t where "t = UpdateMethodsCode (snd a) (GetEntryPoint cfg (fst a)) s"
        have sw: "snd (sweep cfg bm (a # es) s) = snd (sweep cfg bm es t)"
          using True by (simp add: sweep_snd_Cons sweep_entry_def t_def del: sweep.simps(2))
        have hd: "method_headers t = method_headers s" by (simp add: t_def)
        show ?thesis
          unfolding sw using Cons.IH [OF mem Cons.prems(2), of t] by (simp add: hd)
      next
        case dead: False
        define t where "t = FreeCode cfg (fst a) (ClearCounter (snd a) s)"
        have sw: "snd (sweep cfg bm (a # es) s) = snd (sweep cfg bm es t)"
          using dead by (simp add: sweep_snd_Cons sweep_entry_def t_def del: sweep.simps(2))
        have hd: "method_headers t = method_headers s" by (simp add: t_def)
        show ?thesis
          unfolding sw using Cons.IH [OF mem Cons.prems(2), of t] by (simp add: hd)
      qed
    qed
  qed
  then show
    "\<not> allocated (code_mspace (snd (sweep cfg bm es s))) (FromCodeToAllocation cfg (fst it))"
    "GetNativeGcMap cfg (method_headers s (fst it)) (fst it) = Some p \<Longrightarrow>
           \<not> allocated (data_mspace (snd (sweep cfg bm es s))) p"
    "GetMappingTable cfg (method_headers s (fst it)) (fst it) = Some p \<Longrightarrow>
           \<not> allocated (data_mspace (snd (sweep cfg bm es s))) p"
    "vmap_table_offset (method_headers s (fst it)) \<noteq> 0 \<Longrightarrow>
           \<not> allocated (data_mspace (snd (sweep cfg bm es s)))
                (ptr_minus cfg (fst it) (vmap_table_offset (method_headers s (fst it))))"
    by blast+
qed

subsection \<open>The two paths of a collector cycle\<close>

text \<open>
  A cycle that grows is described by its final state; a cycle that collects is the sweep
  block run in \<open>before_sweep\<close>.
\<close>

lemma new_events_append: "trace s' = trace s @ t \<Longrightarrow> new_events s s' = t"
  by (simp add: new_events_def)

lemma fold_trace_update:
  "trace (fold (\<lambda>it. UpdateMethodsCode (snd it) a) es s) = trace s @ map (\<lambda>it. MethodsCodeUpdated (snd it) a) es"
  by (induction es arbitrary: s) simp_all

lemma fold_SetProfilingInfo_trace:
  "trace (fold (\<lambda>info. SetProfilingInfo (snd info) None) is s) = trace s"
  by (induction "is" arbitrary: s) simp_all

lemma reset_trace:
  "trace (GarbageCollectCache_reset cfg s) = trace s @ map (bridged cfg) (method_code_map s)"
proof -
  have "bridged cfg = (\<lambda>it. MethodsCodeUpdated (snd it) (GetQuickToInterpreterBridge cfg))"
    by (rule ext) (simp add: bridged_def)
  then show ?thesis
    by (simp add: GarbageCollectCache_reset_def Let_def fold_SetProfilingInfo_trace fold_trace_update)
qed

lemma fold_update_fields:
  "method_code_map (fold (\<lambda>it. UpdateMethodsCode (snd it) a) es s) = method_code_map s"
  "profiling_infos (fold (\<lambda>it. UpdateMethodsCode (snd it) a) es s) = profiling_infos s"
  "profiling_info (fold (\<lambda>it. UpdateMethodsCode (snd it) a) es s) = profiling_info s"
  "live_bitmap (fold (\<lambda>it. UpdateMethodsCode (snd it) a) es s) = live_bitmap s"
  "collection_in_progress (fold (\<lambda>it. UpdateMethodsCode (snd it) a) es s) = collection_in_progress s"
  "has_done_one_collection (fold (\<lambda>it. UpdateMethodsCode (snd it) a) es s) = has_done_one_collection s"
  "method_headers (fold (\<lambda>it. UpdateMethodsCode (snd it) a) es s) = method_headers s"
  "hotness_count (fold (\<lambda>it. UpdateMethodsCode (snd it) a) es s) = hotness_count s"
  by (induction es arbitrary: s; simp)+

lemma fold_detach_fields:
  "method_code_map (fold (\<lambda>info. SetProfilingInfo (snd info) None) is s) = method_code_map s"
  "profiling_infos (fold (\<lambda>info. SetProfilingInfo (snd info) None) is s) = profiling_infos s"
  "entry_point_from_quick_compiled_code (fold (\<lambda>info. SetProfilingInfo (snd info) None) is s)
     = entry_point_from_quick_compiled_code s"
  "live_bitmap (fold (\<lambda>info. SetProfilingInfo (snd info) None) is s) = live_bitmap s"
  "collection_in_progress (fold (\<lambda>info. SetProfilingInfo (snd info) None) is s) = collection_in_progress s"
  "has_done_one_collection (fold (\<lambda>info. SetProfilingInfo (snd info) None) is s) = has_done_one_collection s"
  "method_headers (fold (\<lambda>info. SetProfilingInfo (snd info) None) is s) = method_headers s"
  "hotness_count (fold (\<lambda>info. SetProfilingInfo (snd info) None) is s) = hotness_count s"
  by (induction "is" arbitrary: s; simp)+

lemma reset_fields:
  "method_code_map (GarbageCollectCache_reset cfg s) = method_code_map s"
  "profiling_infos (GarbageCollectCache_reset cfg s) = profiling_infos s"
  "live_bitmap (GarbageCollectCache_reset cfg s) = live_bitmap s"
  "collection_in_progress (GarbageCollectCache_reset cfg s) = collection_in_progress s"
  "has_done_one_collection (GarbageCollectCache_reset cfg s) = has_done_one_collection s"
  "method_headers (GarbageCollectCache_reset cfg s) = method_headers s"
  "hotness_count (GarbageCollectCache_reset cfg s) = hotness_count s"
  by (simp_all add: GarbageCollectCache_reset_def Let_def fold_update_fields fold_detach_fields)

lemma fold_update_entry:
  "entry_point_from_quick_compiled_code (fold (\<lambda>it. UpdateMethodsCode (snd it) a) es s) m
     = (if m \<in> snd ` set es then a else entry_point_from_quick_compiled_code s m)"
  by (induction es arbitrary: s) auto

lemma fold_detach_info:
  "profiling_info (fold (\<lambda>info. SetProfilingInfo (snd info) None) is s) m
     = (if m \<in> snd ` set is then None else profiling_info s m)"
  by (induction "is" arbitrary: s) auto

lemma reset_entry_point:
  "entry_point_from_quick_compiled_code (GarbageCollectCache_reset cfg s) m
     = (if m \<in> snd ` set (method_code_map s) then GetQuickToInterpreterBridge cfg
        else entry_point_from_quick_compiled_code s m)"
  by (simp add: GarbageCollectCache_reset_def Let_def fold_detach_fields fold_update_entry)

lemma reset_profiling_info:
  "profiling_info (GarbageCollectCache_reset cfg s) m
     = (if m \<in> snd ` set (profiling_infos s) then None else profiling_info s m)"
  by (simp add: GarbageCollectCache_reset_def Let_def fold_detach_info fold_update_fields)

lemma GarbageCollectCache_grows:
  assumes inv: "cache_inv s" and bits: "32 \<le> pointer_bits cfg"
    and gc: "GarbageCollectCache cfg frames s = Inr s'"
    and once: "has_done_one_collection s" and room: "current_capacity s < max_capacity s"
  shows "s' = s\<lparr>current_capacity := grown_capacity s,
            data_mspace := mspace_set_footprint_limit (data_mspace s) (grown_capacity s div 2),
            code_mspace := mspace_set_footprint_limit (code_mspace s) (grown_capacity s div 2),
            has_done_one_collection := False,
            trace := trace s @ [CollectionStarted, CapacityIncreased (grown_capacity s)]\<rparr>"
proof -
  define s1 where "s1 = log CollectionStarted (s\<lparr>collection_in_progress := True\<rparr>)"
  have idle: "\<not> collection_in_progress s"
    using gc by (auto simp: GarbageCollectCache_def GarbageCollectCache_begin_def split: if_splits)
  then have b: "GarbageCollectCache_begin s = Inr s1"
    by (simp add: GarbageCollectCache_begin_def s1_def)
  have inv1: "cache_inv s1" using inv by (simp add: s1_def cache_inv_def log_def)
  obtain g s2 where d: "GarbageCollectCache_decide cfg s1 = Inr (g, s2)"
    using gc b by (auto simp: GarbageCollectCache_def split: sum.splits)
  have done1: "has_done_one_collection s1" using once by (simp add: s1_def log_def)
  obtain g' t where i: "IncreaseCodeCacheCapacity cfg s1 = Inr (g', t)"
    using d done1 by (auto simp: GarbageCollectCache_decide_def split: sum.splits)
  have g': "g'" using Increase_capacity(1) [OF inv1 bits i] room by (simp add: s1_def log_def)
  note t = Increase_capacity(2) [OF inv1 bits i g']
  have "g" and s2: "s2 = NotifyCollectionDone (log (CapacityIncreased (current_capacity t))
                            (t\<lparr>has_done_one_collection := False\<rparr>))"
    using d done1 i g' by (auto simp: GarbageCollectCache_decide_def)
  then have "s' = s2"
    using gc b d by (simp add: GarbageCollectCache_def)
  also have "grown_capacity s1 = grown_capacity s"
    by (simp add: grown_capacity_def s1_def log_def)
  ultimately show ?thesis
    using idle unfolding s2 t
    by (simp add: s1_def log_def NotifyCollectionDone_def)
qed

lemma VisitFrame_cong:
  "code_map_begin t = code_map_begin s \<Longrightarrow> code_map_size t = code_map_size s \<Longrightarrow>
     VisitFrame cfg t = VisitFrame cfg s"
  by (intro ext) (simp add: VisitFrame_def ContainsPc_def split: option.splits)

lemma GarbageCollectCache_collects:
  assumes gc: "GarbageCollectCache cfg frames s = Inr s'"
    and no: "\<not> has_done_one_collection s \<or> current_capacity s = max_capacity s"
  shows "GarbageCollectCache_sweep cfg (before_sweep cfg frames s) = Inr s'"
proof -
  define s1 where "s1 = log CollectionStarted (s\<lparr>collection_in_progress := True\<rparr>)"
  have idle: "\<not> collection_in_progress s"
    using gc by (auto simp: GarbageCollectCache_def GarbageCollectCache_begin_def split: if_splits)
  then have b: "GarbageCollectCache_begin s = Inr s1"
    by (simp add: GarbageCollectCache_begin_def s1_def)
  have d: "GarbageCollectCache_decide cfg s1 = Inr (False, s1\<lparr>live_bitmap := Some {}\<rparr>)"
    using no
    by (auto simp: GarbageCollectCache_decide_def IncreaseCodeCacheCapacity_def s1_def log_def)
  define s3 where "s3 = GarbageCollectCache_reset cfg (s1\<lparr>live_bitmap := Some {}\<rparr>)"
  have m: "MarkCode cfg frames s3 = Inr (s3\<lparr>live_bitmap := Some (fold (VisitFrame cfg s3) frames {})\<rparr>)"
    by (simp add: MarkCode_def s3_def reset_fields)
  have "before_sweep cfg frames s = s3\<lparr>live_bitmap := Some (fold (VisitFrame cfg s3) frames {})\<rparr>"
    by (simp add: before_sweep_def s3_def s1_def Let_def)
  then show ?thesis
    using gc b d m by (simp add: GarbageCollectCache_def s3_def)
qed

lemma GarbageCollectCache_collect_eq:
  assumes "\<not> collection_in_progress s"
    and "\<not> has_done_one_collection s \<or> current_capacity s = max_capacity s"
  shows "GarbageCollectCache cfg frames s = GarbageCollectCache_sweep cfg (before_sweep cfg frames s)"
proof -
  define s1 where "s1 = log CollectionStarted (s\<lparr>collection_in_progress := True\<rparr>)"
  have b: "GarbageCollectCache_begin s = Inr s1"
    using assms(1) by (simp add: GarbageCollectCache_begin_def s1_def)
  have d: "GarbageCollectCache_decide cfg s1 = Inr (False, s1\<lparr>live_bitmap := Some {}\<rparr>)"
    using assms(2)
    by (auto simp: GarbageCollectCache_decide_def IncreaseCodeCacheCapacity_def s1_def log_def)
  define s3 where "s3 = GarbageCollectCache_reset cfg (s1\<lparr>live_bitmap := Some {}\<rparr>)"
  have m: "MarkCode cfg frames s3 = Inr (s3\<lparr>live_bitmap := Some (fold (VisitFrame cfg s3) frames {})\<rparr>)"
    by (simp add: MarkCode_def s3_def reset_fields)
  have "before_sweep cfg frames s = s3\<lparr>live_bitmap := Some (fold (VisitFrame cfg s3) frames {})\<rparr>"
    by (simp add: before_sweep_def s3_def s1_def Let_def)
  then show ?thesis
    using b d m by (simp add: GarbageCollectCache_def s3_def)
qed

lemma fold_free_fields:
  fixes infos :: "(addr \<times> ArtMethod) list"
  shows "method_code_map (fold (\<lambda>info. free_data (Some (fst info))) infos t) = method_code_map t"
    and "trace (fold (\<lambda>info. free_data (Some (fst info))) infos t) = trace t"
    and "profiling_info (fold (\<lambda>info. free_data (Some (fst info))) infos t) = profiling_info t"
    and "entry_point_from_quick_compiled_code (fold (\<lambda>info. free_data (Some (fst info))) infos t)
           = entry_point_from_quick_compiled_code t"
    and "hotness_count (fold (\<lambda>info. free_data (Some (fst info))) infos t) = hotness_count t"
    and "code_mspace (fold (\<lambda>info. free_data (Some (fst info))) infos t) = code_mspace t"
  by (induction infos arbitrary: t; simp)+

lemma free_profiling_infos_fields:
  "method_code_map (free_profiling_infos t) = method_code_map t"
  "trace (free_profiling_infos t) = trace t"
  "profiling_infos (free_profiling_infos t) = []"
  "profiling_info (free_profiling_infos t) = profiling_info t"
  "entry_point_from_quick_compiled_code (free_profiling_infos t) = entry_point_from_quick_compiled_code t"
  "hotness_count (free_profiling_infos t) = hotness_count t"
  "code_mspace (free_profiling_infos t) = code_mspace t"
  by (simp_all add: free_profiling_infos_def fold_free_fields)

lemma reset_code_map:
  "code_map_begin (GarbageCollectCache_reset cfg s) = code_map_begin s"
  "code_map_size (GarbageCollectCache_reset cfg s) = code_map_size s"
proof -
  have u: "code_map_begin (fold (\<lambda>it. UpdateMethodsCode (snd it) a) es t) = code_map_begin t
       \<and> code_map_size (fold (\<lambda>it. UpdateMethodsCode (snd it) a) es t) = code_map_size t"
    for a and es :: "(addr \<times> ArtMethod) list" and t
    by (induction es arbitrary: t) (simp_all add: UpdateMethodsCode_def log_def)
  have d: "code_map_begin (fold (\<lambda>info. SetProfilingInfo (snd info) None) infos t) = code_map_begin t
       \<and> code_map_size (fold (\<lambda>info. SetProfilingInfo (snd info) None) infos t) = code_map_size t"
    for infos :: "(addr \<times> ArtMethod) list" and t
    by (induction infos arbitrary: t) (simp_all add: SetProfilingInfo_def)
  show "code_map_begin (GarbageCollectCache_reset cfg s) = code_map_begin s"
    "code_map_size (GarbageCollectCache_reset cfg s) = code_map_size s"
    by (simp_all add: GarbageCollectCache_reset_def Let_def u d)
qed

lemma sweep_block_result:
  assumes "GarbageCollectCache_sweep cfg s = Inr s'" "live_bitmap s = Some bm"
  shows "method_code_map s' = filter (live_entry cfg bm) (method_code_map s)"
    and "trace s' = trace s @ map (restored cfg) (filter (live_entry cfg bm) (method_code_map s)) @ [Swept]"
    and "profiling_infos s' = []"
    and "live_bitmap s' = None"
    and "has_done_one_collection s'"
    and "\<not> collection_in_progress s'"
    and "current_capacity s' = current_capacity s"
    and "max_capacity s' = max_capacity s"
proof -
  define r where "r = sweep cfg bm (method_code_map s) s"
  define s2 where "s2 = free_profiling_infos ((snd r)\<lparr>method_code_map := fst r\<rparr>)"
  have s': "s' = NotifyCollectionDone (log Swept (s2\<lparr>live_bitmap := None, has_done_one_collection := True\<rparr>))"
    using assms unfolding GarbageCollectCache_sweep_def Let_def s2_def r_def
    by (auto split: if_splits simp: case_prod_unfold)
  note fp = free_profiling_infos_fields
  show "method_code_map s' = filter (live_entry cfg bm) (method_code_map s)"
    by (simp add: s' s2_def fp NotifyCollectionDone_def log_def r_def sweep_kept)
  show "trace s' = trace s @ map (restored cfg) (filter (live_entry cfg bm) (method_code_map s)) @ [Swept]"
    by (simp add: s' s2_def fp NotifyCollectionDone_def log_def r_def sweep_trace)
  show "profiling_infos s' = []" "live_bitmap s' = None" "has_done_one_collection s'"
    "\<not> collection_in_progress s'"
    by (simp_all add: s' s2_def fp NotifyCollectionDone_def log_def)
  show "current_capacity s' = current_capacity s" "max_capacity s' = max_capacity s"
    using shrinks_sweep_block [OF assms(1)] by (simp_all add: shrinks_def)
qed

lemma sweep_block_state:
  assumes "GarbageCollectCache_sweep cfg s = Inr s'" "live_bitmap s = Some bm"
  shows "entry_point_from_quick_compiled_code s'
           = entry_point_from_quick_compiled_code (snd (sweep cfg bm (method_code_map s) s))"
    and "hotness_count s' = hotness_count (snd (sweep cfg bm (method_code_map s) s))"
    and "profiling_info s' = profiling_info s"
    and "code_mspace s' = code_mspace (snd (sweep cfg bm (method_code_map s) s))"
    and "allocated (data_mspace s') p \<Longrightarrow>
           allocated (data_mspace (snd (sweep cfg bm (method_code_map s) s))) p"
    and "\<forall>info \<in> set (profiling_infos s). \<not> allocated (data_mspace s') (fst info)"
proof -
  define r where "r = sweep cfg bm (method_code_map s) s"
  define s1 where "s1 = (snd r)\<lparr>method_code_map := fst r\<rparr>"
  define s2 where "s2 = free_profiling_infos s1"
  have s': "s' = NotifyCollectionDone (log Swept (s2\<lparr>live_bitmap := None, has_done_one_collection := True\<rparr>))"
    using assms unfolding GarbageCollectCache_sweep_def Let_def s2_def s1_def r_def
    by (auto split: if_splits simp: case_prod_unfold)
  note fp = free_profiling_infos_fields
  show "entry_point_from_quick_compiled_code s' = entry_point_from_quick_compiled_code (snd r)"
    "hotness_count s' = hotness_count (snd r)"
    "code_mspace s' = code_mspace (snd r)"
    by (simp_all add: s' s2_def s1_def fp NotifyCollectionDone_def log_def)
  show "profiling_info s' = profiling_info s"
    by (simp add: s' s2_def s1_def fp NotifyCollectionDone_def log_def r_def sweep_fields)
  have d: "data_mspace s' = data_mspace s2"
    by (simp add: s' NotifyCollectionDone_def log_def)
  have sh: "shrinks s1 s2" unfolding s2_def by (rule shrinks_free_profiling_infos)
  show "allocated (data_mspace (snd r)) p" if "allocated (data_mspace s') p"
    using shrinks_allocated(2) [OF sh] that by (simp add: d s1_def)
  have pis: "profiling_infos s1 = profiling_infos s"
    by (simp add: s1_def r_def sweep_fields)
  have "\<forall>info \<in> set infos. \<not> allocated (data_mspace (fold (\<lambda>info. free_data (Some (fst info))) infos t)) (fst info)"
    for infos :: "(addr \<times> ArtMethod) list" and t
  proof (induction infos arbitrary: t)
    case Nil
    show ?case by simp
  next
    case (Cons a infos)
    have "shrinks (free_data (Some (fst a)) t) (fold (\<lambda>info. free_data (Some (fst info))) infos (free_data (Some (fst a)) t))"
      by (rule shrinks_fold) simp
    from shrinks_allocated(2) [OF this] free_data_freed [of "fst a" t] Cons.IH [of "free_data (Some (fst a)) t"]
    show ?case by auto
  qed
  then show "\<forall>info \<in> set (profiling_infos s). \<not> allocated (data_mspace s') (fst info)"
    by (simp add: d s2_def free_profiling_infos_def pis [symmetric])
qed

lemma sweep_block_total:
  assumes "mprotect_ok cfg" "live_bitmap s = Some bm"
  shows "\<exists>s'. GarbageCollectCache_sweep cfg s = Inr s'"
  using assms by (simp add: GarbageCollectCache_sweep_def Let_def case_prod_unfold)

lemma before_sweep_fields:
  "live_bitmap (before_sweep cfg frames s) = Some (fold (VisitFrame cfg s) frames {})"
  "method_code_map (before_sweep cfg frames s) = method_code_map s"
  "trace (before_sweep cfg frames s) = trace s @ CollectionStarted # map (bridged cfg) (method_code_map s)"
  "current_capacity (before_sweep cfg frames s) = current_capacity s"
  "max_capacity (before_sweep cfg frames s) = max_capacity s"
  "profiling_infos (before_sweep cfg frames s) = profiling_infos s"
proof -
  define s2 where "s2 = (log CollectionStarted (s\<lparr>collection_in_progress := True\<rparr>))\<lparr>live_bitmap := Some {}\<rparr>"
  define s3 where "s3 = GarbageCollectCache_reset cfg s2"
  have bs: "before_sweep cfg frames s = s3\<lparr>live_bitmap := Some (fold (VisitFrame cfg s3) frames {})\<rparr>"
    by (simp add: before_sweep_def s3_def s2_def Let_def)
  have sh: "shrinks s2 s3" unfolding s3_def by (rule shrinks_reset)
  have "code_map_begin s3 = code_map_begin s" "code_map_size s3 = code_map_size s"
    by (simp_all add: s3_def reset_code_map s2_def log_def)
  then have vf: "VisitFrame cfg s3 = VisitFrame cfg s" by (rule VisitFrame_cong)
  show "live_bitmap (before_sweep cfg frames s) = Some (fold (VisitFrame cfg s) frames {})"
    by (simp add: bs vf)
  show "method_code_map (before_sweep cfg frames s) = method_code_map s"
    by (simp add: bs s3_def reset_fields s2_def log_def)
  show "trace (before_sweep cfg frames s) = trace s @ CollectionStarted # map (bridged cfg) (method_code_map s)"
    by (simp add: bs s3_def reset_trace s2_def log_def)
  show "current_capacity (before_sweep cfg frames s) = current_capacity s"
    "max_capacity (before_sweep cfg frames s) = max_capacity s"
    using sh by (simp_all add: bs shrinks_def s2_def log_def)
  show "profiling_infos (before_sweep cfg frames s) = profiling_infos s"
    by (simp add: bs s3_def reset_fields s2_def log_def)
qed

lemma before_sweep_runtime:
  "entry_point_from_quick_compiled_code (before_sweep cfg frames s) m
     = (if m \<in> snd ` set (method_code_map s) then GetQuickToInterpreterBridge cfg
        else entry_point_from_quick_compiled_code s m)"
  "profiling_info (before_sweep cfg frames s) m
     = (if m \<in> snd ` set (profiling_infos s) then None else profiling_info s m)"
  by (simp_all add: before_sweep_def Let_def reset_entry_point reset_profiling_info log_def)

lemma reachable_GarbageCollectCache:
  assumes "reachable cfg s" "GarbageCollectCache cfg frames s = Inr s'"
  shows "reachable cfg s'"
proof -
  obtain s1 where b: "GarbageCollectCache_begin s = Inr s1"
    using assms(2) by (auto simp: GarbageCollectCache_def split: sum.splits)
  obtain g s2 where d: "GarbageCollectCache_decide cfg s1 = Inr (g, s2)"
    using assms(2) b by (auto simp: GarbageCollectCache_def split: sum.splits)
  have r2: "reachable cfg s2"
    using reachable_step [OF reachable_step [OF assms(1) step_gc_begin [OF b]] step_gc_decide [OF d]] .
  show ?thesis
  proof (cases g)
    case True
    then show ?thesis using assms(2) b d r2 by (simp add: GarbageCollectCache_def)
  next
    case False
    obtain s3 where m: "MarkCode cfg frames (GarbageCollectCache_reset cfg s2) = Inr s3"
      and sw: "GarbageCollectCache_sweep cfg s3 = Inr s'"
      using assms(2) b d False by (auto simp: GarbageCollectCache_def split: sum.splits)
    show ?thesis
      using reachable_step [OF reachable_step [OF reachable_step [OF r2 step_gc_reset]
            step_gc_mark [OF m]] step_gc_sweep [OF sw]] .
  qed
qed

lemma shrinks_before_sweep: "shrinks s (before_sweep cfg frames s)"
proof -
  define s2 where "s2 = (log CollectionStarted (s\<lparr>collection_in_progress := True\<rparr>))\<lparr>live_bitmap := Some {}\<rparr>"
  define s3 where "s3 = GarbageCollectCache_reset cfg s2"
  have bs: "before_sweep cfg frames s = s3\<lparr>live_bitmap := Some (fold (VisitFrame cfg s3) frames {})\<rparr>"
    by (simp add: before_sweep_def s3_def s2_def Let_def)
  have 1: "shrinks s s2" by (simp add: s2_def shrinks_def log_def released_refl)
  have 2: "shrinks s2 s3" unfolding s3_def by (rule shrinks_reset)
  have 3: "shrinks s3 (before_sweep cfg frames s)" unfolding bs by (rule shrinks_field_update)
  show ?thesis using shrinks_trans [OF 1 shrinks_trans [OF 2 3]] .
qed

lemma collecting_cycle:
  assumes gc: "GarbageCollectCache cfg frames s = Inr s'"
    and no: "\<not> has_done_one_collection s \<or> current_capacity s = max_capacity s"
  shows "shrinks s s'"
    and "new_events s s' = CollectionStarted # map (bridged cfg) (method_code_map s)
           @ map (restored cfg) (filter (live_entry cfg (fold (VisitFrame cfg s) frames {})) (method_code_map s))
           @ [Swept]"
    and "has_done_one_collection s'"
proof -
  note sw = GarbageCollectCache_collects [OF gc no]
  note bf = before_sweep_fields [of cfg frames s]
  show "shrinks s s'"
    using shrinks_trans [OF shrinks_before_sweep shrinks_sweep_block [OF sw]] .
  show "new_events s s' = CollectionStarted # map (bridged cfg) (method_code_map s)
           @ map (restored cfg) (filter (live_entry cfg (fold (VisitFrame cfg s) frames {})) (method_code_map s))
           @ [Swept]"
    by (rule new_events_append) (simp add: sweep_block_result(2) [OF sw bf(1)] bf)
  show "has_done_one_collection s'"
    by (rule sweep_block_result(5) [OF sw bf(1)])
qed

lemma growing_cycle:
  assumes inv: "cache_inv s" and bits: "32 \<le> pointer_bits cfg"
    and gc: "GarbageCollectCache cfg frames s = Inr s'"
    and once: "has_done_one_collection s" and room: "current_capacity s < max_capacity s"
  shows "current_capacity s' = grown_capacity s"
    and "footprint_limit (code_mspace s') = grown_capacity s div 2"
    and "footprint_limit (data_mspace s') = grown_capacity s div 2"
    and "new_events s s' = [CollectionStarted, CapacityIncreased (grown_capacity s)]"
    and "\<not> has_done_one_collection s'"
    and "method_code_map s' = method_code_map s \<and> profiling_infos s' = profiling_infos s
         \<and> chunks (code_mspace s') = chunks (code_mspace s)
         \<and> chunks (data_mspace s') = chunks (data_mspace s)
         \<and> entry_point_from_quick_compiled_code s' = entry_point_from_quick_compiled_code s
         \<and> profiling_info s' = profiling_info s \<and> hotness_count s' = hotness_count s
         \<and> live_bitmap s' = live_bitmap s"
  unfolding GarbageCollectCache_grows [OF assms]
  by (simp_all add: mspace_set_footprint_limit_def new_events_def)

lemma is_update_events:
  "Swept \<notin> set (map (bridged cfg) es)" "Swept \<notin> set (map (restored cfg) es)"
  "CapacityIncreased c \<notin> set (map (bridged cfg) es)" "CapacityIncreased c \<notin> set (map (restored cfg) es)"
  by (auto simp: bridged_def restored_def)

subsection \<open>Events of the facade operations\<close>

text \<open>
  From an idle state a cycle and \<open>CommitCodeInternal\<close> return; a cycle logs its start and no
  call of the allocator, \<open>CommitCodeInternal\<close> and a block of \<open>ReserveData\<close> log one call of
  the allocator and no cycle.
\<close>

lemma allocations_simps [simp]:
  "allocations [] = []"
  "allocations (Allocate rg n r # ev) = r # allocations ev"
  "allocations (CollectionStarted # ev) = allocations ev"
  "allocations (CapacityIncreased c # ev) = allocations ev"
  "allocations (Swept # ev) = allocations ev"
  "allocations (MethodsCodeUpdated m a # ev) = allocations ev"
  "allocations (ev @ ev') = allocations ev @ allocations ev'"
  by (simp_all add: allocations_def)

lemma cycles_simps [simp]:
  "cycles [] = 0"
  "cycles (Allocate rg n r # ev) = cycles ev"
  "cycles (CollectionStarted # ev) = Suc (cycles ev)"
  "cycles (CapacityIncreased c # ev) = cycles ev"
  "cycles (Swept # ev) = cycles ev"
  "cycles (MethodsCodeUpdated m a # ev) = cycles ev"
  "cycles (ev @ ev') = cycles ev + cycles ev'"
  by (simp_all add: cycles_def)

lemma updates_only [simp]:
  "allocations (map (bridged cfg) es) = []" "cycles (map (bridged cfg) es) = 0"
  "allocations (map (restored cfg) es) = []" "cycles (map (restored cfg) es) = 0"
  by (induction es) (simp_all add: bridged_def restored_def)

lemma GarbageCollectCache_shape:
  assumes idle: "\<not> collection_in_progress s" and prot: "mprotect_ok cfg"
  shows "\<exists>s' t. GarbageCollectCache cfg frames s = Inr s' \<and> trace s' = trace s @ t
           \<and> \<not> collection_in_progress s' \<and> cycles t = 1 \<and> allocations t = []"
proof (cases "\<not> has_done_one_collection s \<or> current_capacity s = max_capacity s")
  case True
  note bf = before_sweep_fields [of cfg frames s]
  obtain s' where sw: "GarbageCollectCache_sweep cfg (before_sweep cfg frames s) = Inr s'"
    using sweep_block_total [OF prot bf(1)] by blast
  note res = sweep_block_result [OF sw bf(1)]
  have gc: "GarbageCollectCache cfg frames s = Inr s'"
    using GarbageCollectCache_collect_eq [OF idle True] sw by simp
  have tr: "trace s' = trace s @ (CollectionStarted # map (bridged cfg) (method_code_map s)
      @ map (restored cfg) (filter (live_entry cfg (fold (VisitFrame cfg s) frames {})) (method_code_map s))
      @ [Swept])"
    by (simp add: res(2) bf)
  show ?thesis
    using gc tr res(6) by (intro exI conjI) (assumption, assumption, assumption, simp_all)
next
  case False
  define c1 where "c1 = (if current_capacity s < 1 * MB then wrap cfg (current_capacity s * 2)
                  else wrap cfg (current_capacity s + 1 * MB))"
  define c2 where "c2 = (if c1 > max_capacity s then max_capacity s else c1)"
  define s1 where "s1 = log CollectionStarted (s\<lparr>collection_in_progress := True\<rparr>)"
  define s2 where "s2 = s1\<lparr>current_capacity := c2,
      data_mspace := mspace_set_footprint_limit (data_mspace s1) (c2 div 2),
      code_mspace := mspace_set_footprint_limit (code_mspace s1) (c2 div 2)\<rparr>"
  define s' where "s' = NotifyCollectionDone (log (CapacityIncreased (current_capacity s2))
                            (s2\<lparr>has_done_one_collection := False\<rparr>))"
  have b: "GarbageCollectCache_begin s = Inr s1"
    using idle by (simp add: GarbageCollectCache_begin_def s1_def)
  have i: "IncreaseCodeCacheCapacity cfg s1 = Inr (True, s2)"
    using False prot
    by (simp add: IncreaseCodeCacheCapacity_def SetFootprintLimit_def Let_def s1_def s2_def
        c1_def c2_def log_def)
  have d: "GarbageCollectCache_decide cfg s1 = Inr (True, s')"
    using False i by (simp add: GarbageCollectCache_decide_def s'_def s1_def log_def)
  have gc: "GarbageCollectCache cfg frames s = Inr s'"
    using b d by (simp add: GarbageCollectCache_def)
  have tr: "trace s' = trace s @ [CollectionStarted, CapacityIncreased (current_capacity s2)]"
    by (simp add: s'_def s2_def s1_def NotifyCollectionDone_def log_def)
  have "\<not> collection_in_progress s'" by (simp add: s'_def NotifyCollectionDone_def)
  then show ?thesis
    using gc tr by (intro exI conjI) (assumption, assumption, assumption, simp_all)
qed

lemma CommitCodeInternal_shape:
  assumes idle: "\<not> collection_in_progress s" and prot: "mprotect_ok cfg"
  shows "\<exists>r s' t. CommitCodeInternal cfg args now s = Inr (r, s') \<and> trace s' = trace s @ t
           \<and> \<not> collection_in_progress s' \<and> cycles t = 0
           \<and> (case r of None \<Rightarrow> allocations t = [None]
               | Some h \<Rightarrow> \<exists>a. allocations t = [Some a] \<and> h = FromCodePointer cfg (a + header_size cfg))"
proof -
  define n where "n = wrap cfg (header_size cfg + arg_code_size args)"
  obtain p ms where m: "mspace_memalign (place cfg) (code_mspace s) (instruction_set_alignment cfg) n = (p, ms)"
    by (cases "mspace_memalign (place cfg) (code_mspace s) (instruction_set_alignment cfg) n") auto
  show ?thesis
  proof (cases p)
    case None
    have "CommitCodeInternal cfg args now s = Inr (None, log (Allocate CodeRegion n None) s)"
      using idle prot m None
      by (simp add: CommitCodeInternal_def CommitCodeInternal_allocate_def Let_def n_def)
    then show ?thesis
      using idle by (intro exI [of _ None] exI [of _ "log (Allocate CodeRegion n None) s"]
          exI [of _ "[Allocate CodeRegion n None]"]) (simp add: log_def)
  next
    case (Some a)
    obtain s1 where al: "CommitCodeInternal_allocate cfg args s = Inr (Some (a + header_size cfg), s1)"
      and t1: "trace s1 = trace s @ [Allocate CodeRegion n (Some a)]"
      and i1: "\<not> collection_in_progress s1"
      using idle prot m Some
      by (simp add: CommitCodeInternal_allocate_def Let_def n_def log_def)
    define s2 where "s2 = (UpdateMethodsCode (arg_method args) (GetEntryPoint cfg (a + header_size cfg))
                 (s1\<lparr>method_code_map := Put (a + header_size cfg) (arg_method args) (method_code_map s1)\<rparr>))
                 \<lparr>last_update_time_ns := now\<rparr>"
    have pu: "CommitCodeInternal_publish cfg (arg_method args) (a + header_size cfg) now s1 = Inr s2"
      using i1 by (simp add: CommitCodeInternal_publish_def Let_def s2_def)
    have "CommitCodeInternal cfg args now s = Inr (Some (FromCodePointer cfg (a + header_size cfg)), s2)"
      using al pu by (simp add: CommitCodeInternal_def)
    moreover have "trace s2 = trace s @ [Allocate CodeRegion n (Some a),
        MethodsCodeUpdated (arg_method args) (GetEntryPoint cfg (a + header_size cfg))]"
      by (simp add: s2_def t1)
    moreover have "\<not> collection_in_progress s2" using i1 by (simp add: s2_def)
    ultimately show ?thesis
      by (intro exI [of _ "Some (FromCodePointer cfg (a + header_size cfg))"] exI [of _ s2]
          exI [of _ "[Allocate CodeRegion n (Some a),
        MethodsCodeUpdated (arg_method args) (GetEntryPoint cfg (a + header_size cfg))]"]) simp
  qed
qed

lemma ReserveData_allocate_shape:
  assumes idle: "\<not> collection_in_progress s"
  shows "\<exists>r s'. ReserveData_allocate cfg n s = Inr (r, s') \<and> trace s' = trace s @ [Allocate DataRegion n r]
           \<and> \<not> collection_in_progress s'"
  using idle
  by (cases "mspace_malloc (place cfg) (data_mspace s) n")
     (simp add: ReserveData_allocate_def log_def)

subsection \<open>Profiling records\<close>

lemma AddProfilingInfoInternal_attached:
  "\<not> collection_in_progress s \<Longrightarrow> profiling_info s m = Some info \<Longrightarrow>
     AddProfilingInfoInternal cfg m entries s = Inr (Some info, s)"
  by (simp add: AddProfilingInfoInternal_def Let_def)

lemma AddProfilingInfoInternal_Some:
  "AddProfilingInfoInternal cfg m entries s = Inr (Some info, s') \<Longrightarrow>
     \<not> collection_in_progress s' \<and> profiling_info s' m = Some info"
  by (auto simp: AddProfilingInfoInternal_def Let_def log_def SetProfilingInfo_def
      split: if_splits option.splits prod.splits)

lemma AddProfilingInfoInternal_None:
  assumes "AddProfilingInfoInternal cfg m entries s = Inr (None, s')"
  shows "\<exists>ev. s' = log ev s \<and> AddProfilingInfoInternal cfg m entries s' = Inr (None, log ev s')"
  using assms
  by (auto simp: AddProfilingInfoInternal_def Let_def log_def
      split: if_splits option.splits prod.splits)

subsection \<open>Lookup in a sorted map\<close>

lemma takeWhile_sorted_below:
  "sorted (map fst es) \<Longrightarrow> takeWhile (\<lambda>e. fst e < (pc::nat)) es = filter (\<lambda>e. fst e < pc) es"
proof (induction es)
  case Nil
  show ?case by simp
next
  case (Cons e es)
  show ?case
  proof (cases "fst e < pc")
    case True
    with Cons show ?thesis by simp
  next
    case False
    with Cons.prems have "\<forall>x \<in> set es. \<not> fst x < pc" by fastforce
    then have "filter (\<lambda>e. fst e < pc) es = []" by (simp add: filter_empty_conv)
    with False show ?thesis by simp
  qed
qed

lemma sorted_le_last: "sorted (xs::nat list) \<Longrightarrow> x \<in> set xs \<Longrightarrow> x \<le> last xs"
  by (induction xs) auto

subsection \<open>Publishing while a collection is in progress\<close>

text \<open>
  When the bitmap exists, an entry published during a collection has its bit set and is
  kept by the sweep; when the bitmap is null the publishing block calls through it.
\<close>

lemma Put_mem: "(k, v) \<in> set (Put k v es)"
  by (induction es) auto

lemma published_entry_survives:
  assumes "CommitCodeInternal_publish cfg m code_ptr now s = Inr s1"
    and "collection_in_progress s"
    and "GarbageCollectCache_sweep cfg s1 = Inr s2"
  shows "(code_ptr, m) \<in> set (method_code_map s2)"
proof -
  obtain bitmap where b: "live_bitmap s = Some bitmap"
    using assms(1,2)
    by (auto simp: CommitCodeInternal_publish_def Let_def split: option.splits)
  have s1: "live_bitmap s1 = Some (insert (FromCodeToAllocation cfg code_ptr) bitmap)"
    "method_code_map s1 = Put code_ptr m (method_code_map s)"
    using assms(1,2) b by (auto simp: CommitCodeInternal_publish_def Let_def)
  show ?thesis
    unfolding sweep_block_result(1) [OF assms(3) s1(1)]
    by (simp add: s1(2) Put_mem live_entry_def)
qed

lemma publish_through_null_bitmap:
  "collection_in_progress s \<Longrightarrow> live_bitmap s = None \<Longrightarrow>
     CommitCodeInternal_publish cfg m code_ptr now s = Inl NullBitmap"
  by (simp add: CommitCodeInternal_publish_def Let_def)

subsection \<open>The example states\<close>

text \<open>The runs of the examples, evaluated.\<close>

lemma Create_fresh: "Create example_config example_platform 16384 65536 = Inr (Inr fresh_cache)"
  by (simp add: Create_def example_config_def example_platform_def fresh_cache_def GB_def KB_def
      kPageSize_def RoundDown_def JitCodeCache_new_def SetFootprintLimit_def
      create_mspace_with_base_def mspace_set_footprint_limit_def Let_def)

lemma reachable_fresh: "reachable example_config fresh_cache"
  using reachable_Create [OF Create_fresh] .

lemma GC_fresh': "GarbageCollectCache example_config [] fresh_cache = Inr collected_cache"
  by (simp add: GarbageCollectCache_def GarbageCollectCache_begin_def GarbageCollectCache_decide_def
      GarbageCollectCache_reset_def MarkCode_def GarbageCollectCache_sweep_def
      free_profiling_infos_def NotifyCollectionDone_def log_def collected_cache_def
      fresh_cache_def example_config_def Let_def)

lemma GC_collected: "GarbageCollectCache example_config [] collected_cache = Inr grown_cache"
  by (simp add: GarbageCollectCache_def GarbageCollectCache_begin_def GarbageCollectCache_decide_def
      IncreaseCodeCacheCapacity_def SetFootprintLimit_def mspace_set_footprint_limit_def
      wrap_def MB_def KB_def
      NotifyCollectionDone_def log_def collected_cache_def grown_cache_def
      fresh_cache_def example_config_def Let_def)

lemma reachable_collected: "reachable example_config collected_cache"
  using reachable_GarbageCollectCache [OF reachable_fresh GC_fresh'] .

lemma begin_collected: "GarbageCollectCache_begin collected_cache = Inr announced_cache"
  by (simp add: GarbageCollectCache_begin_def log_def collected_cache_def announced_cache_def
      fresh_cache_def)

lemma decide_announced:
  "GarbageCollectCache_decide example_config announced_cache = Inr (True, grown_cache)"
  by (simp add: GarbageCollectCache_decide_def
      IncreaseCodeCacheCapacity_def SetFootprintLimit_def mspace_set_footprint_limit_def
      wrap_def MB_def KB_def
      NotifyCollectionDone_def log_def collected_cache_def grown_cache_def announced_cache_def
      fresh_cache_def example_config_def Let_def)

lemma header_size_example: "header_size example_config = 32"
  by (simp add: header_size_def RoundUp_def RoundDown_def wrap_def example_config_def)

lemma allocation_example:
  "FromCodeToAllocation example_config 98336 = 98304"
  "FromCodeToAllocation example_config 98464 = 98432"
  by (simp_all add: FromCodeToAllocation_def ptr_minus_def header_size_example)
     (simp_all add: example_config_def)

lemma before_sweep_busy:
  "before_sweep example_config [Some 98336] busy_cache =
     busy_cache\<lparr>collection_in_progress := True, live_bitmap := Some {98304},
       entry_point_from_quick_compiled_code := (\<lambda>m. 4096),
       profiling_info := (\<lambda>m. None),
       trace := [CollectionStarted, MethodsCodeUpdated 1 4096, MethodsCodeUpdated 2 4096]\<rparr>"
  by (simp add: before_sweep_def GarbageCollectCache_reset_def UpdateMethodsCode_def
      SetProfilingInfo_def log_def VisitFrame_def ContainsPc_def allocation_example Let_def
      busy_cache_def fun_eq_iff)
     (simp add: example_config_def)

lemma sweep_busy:
  "GarbageCollectCache_sweep example_config (before_sweep example_config [Some 98336] busy_cache)
     = Inr swept_cache"
  unfolding before_sweep_busy
  by (simp add: GarbageCollectCache_sweep_def FreeCode_def free_data_def
      GetNativeGcMap_def GetMappingTable_def table_at_def zero_header_def
      UpdateMethodsCode_def ClearCounter_def mspace_free_def free_profiling_infos_def
      NotifyCollectionDone_def log_def allocation_example Let_def
      busy_cache_def swept_cache_def fun_eq_iff ptr_minus_def)
     (simp add: example_config_def)

lemma GC_busy: "GarbageCollectCache example_config [Some 98336] busy_cache = Inr swept_cache"
proof -
  have "\<not> collection_in_progress busy_cache" "\<not> has_done_one_collection busy_cache"
    by (simp_all add: busy_cache_def)
  then show ?thesis
    using GarbageCollectCache_collect_eq [of busy_cache example_config "[Some 98336]"] sweep_busy
    by simp
qed

lemma big_commit_fails:
  "CommitCodeInternal example_config big_args 9 (fresh_cache\<lparr>has_done_one_collection := h, trace := t\<rparr>)
     = Inr (None, fresh_cache\<lparr>has_done_one_collection := h, trace := t @ [Allocate CodeRegion 100032 None]\<rparr>)"
  by (simp add: CommitCodeInternal_def CommitCodeInternal_allocate_def mspace_memalign_def
      admissible_def top_place_def RoundDown_def RoundUp_def header_size_def wrap_def log_def Let_def
      big_args_def fresh_cache_def example_config_def)

lemma GC_fresh_any:
  "GarbageCollectCache example_config [] (fresh_cache\<lparr>has_done_one_collection := False, trace := t\<rparr>)
     = Inr (fresh_cache\<lparr>has_done_one_collection := True, trace := t @ [CollectionStarted, Swept]\<rparr>)"
  by (simp add: GarbageCollectCache_def GarbageCollectCache_begin_def GarbageCollectCache_decide_def
      GarbageCollectCache_reset_def MarkCode_def GarbageCollectCache_sweep_def
      free_profiling_infos_def NotifyCollectionDone_def log_def
      fresh_cache_def example_config_def Let_def)

lemma fresh_as_update: "fresh_cache = fresh_cache\<lparr>has_done_one_collection := False, trace := []\<rparr>"
  by (simp add: fresh_cache_def)

lemma big_commit: "CommitCode example_config [] big_args 9 fresh_cache = Inr (None, exhausted_cache)"
  unfolding CommitCode_def
  by (subst fresh_as_update) (simp add: big_commit_fails GC_fresh_any exhausted_cache_def)

lemma small_reserve: "ReserveData example_config [] 61 fresh_cache = Inr (Some 65536, reserved_cache)"
  by (simp add: ReserveData_def ReserveData_allocate_def mspace_malloc_def mspace_memalign_def
      admissible_def RoundUp_def RoundDown_def wrap_def sizeof_pointer_def log_def Let_def
      reserved_cache_def fresh_cache_def example_config_def top_place_def)

lemma first_attach:
  "AddProfilingInfo example_config [] 1 [10, 20] True fresh_cache = Inr (Some 65536, profiled_cache)"
  by (simp add: AddProfilingInfo_def AddProfilingInfoInternal_def mspace_malloc_def mspace_memalign_def
      admissible_def RoundUp_def RoundDown_def wrap_def sizeof_pointer_def log_def Let_def
      SetProfilingInfo_def
      profiled_cache_def fresh_cache_def example_config_def top_place_def fun_eq_iff)

lemma decimal_65536: "decimal 65536 = ''65536''"
  by simp

lemma decimal_2G: "decimal 2147483648 = ''2147483648''"
  by simp

section \<open>The claims\<close>

subsection \<open>C1\<close>

text \<open>
  Claim C1.  The sweep of a collector cycle, for an entry \<open>(code_ptr, m)\<close> of the map.  If
  the bit of its allocation is set in the bitmap, the entry stays in the map and the sweep
  calls \<open>UpdateMethodsCode\<close> for \<open>m\<close> with the entry point of this code; after the
  sweep the entry point of \<open>m\<close> is that of a live entry of \<open>m\<close>, and of this one when
  \<open>m\<close> owns no other live entry (entries are restored in the order of the map).  If the
  bit is not set, no entry with this code pointer is left in the map, the counter of \<open>m\<close>
  is zero, and no chunk starts at the allocation of the code nor at the mapping table, the
  vmap table or the GC map of its header, each of which is absent when its offset is zero.
  The bitmap is the one that the sweep finds, with the bits of the marking and of the commits
  published in the meantime; a collecting cycle is this block run in \<open>before_sweep\<close>.
\<close>

theorem sweep_restores_or_frees:
  assumes "GarbageCollectCache_sweep cfg s = Inr s'" and "live_bitmap s = Some bitmap"
    and "(code_ptr, m) \<in> set (method_code_map s)"
  shows "if FromCodeToAllocation cfg code_ptr \<in> bitmap
         then (code_ptr, m) \<in> set (method_code_map s')
            \<and> MethodsCodeUpdated m (GetEntryPoint cfg code_ptr) \<in> set (new_events s s')
            \<and> (\<exists>c. (c, m) \<in> set (method_code_map s) \<and> FromCodeToAllocation cfg c \<in> bitmap
                   \<and> entry_point_from_quick_compiled_code s' m = GetEntryPoint cfg c)
            \<and> ((\<forall>c. (c, m) \<in> set (method_code_map s) \<and> FromCodeToAllocation cfg c \<in> bitmap
                       \<longrightarrow> c = code_ptr)
                 \<longrightarrow> entry_point_from_quick_compiled_code s' m = GetEntryPoint cfg code_ptr)
         else code_ptr \<notin> fst ` set (method_code_map s')
            \<and> hotness_count s' m = 0
            \<and> \<not> allocated (code_mspace s') (FromCodeToAllocation cfg code_ptr)
            \<and> (\<forall>p. GetMappingTable cfg (method_headers s code_ptr) code_ptr = Some p
                     \<longrightarrow> \<not> allocated (data_mspace s') p)
            \<and> (vmap_table_offset (method_headers s code_ptr) \<noteq> 0
                     \<longrightarrow> \<not> allocated (data_mspace s')
                            (ptr_minus cfg code_ptr (vmap_table_offset (method_headers s code_ptr))))
            \<and> (\<forall>p. GetNativeGcMap cfg (method_headers s code_ptr) code_ptr = Some p
                     \<longrightarrow> \<not> allocated (data_mspace s') p)"
proof (cases "FromCodeToAllocation cfg code_ptr \<in> bitmap")
  case True
  note res = sweep_block_result [OF assms(1,2)]
  note st = sweep_block_state [OF assms(1,2)]
  have live: "live_entry cfg bitmap (code_ptr, m)" using True by (simp add: live_entry_def)
  have 1: "(code_ptr, m) \<in> set (method_code_map s')"
    using assms(3) live by (simp add: res(1))
  have "restored cfg (code_ptr, m) \<in> set (new_events s s')"
    unfolding new_events_append [OF res(2)] using assms(3) live by auto
  then have 2: "MethodsCodeUpdated m (GetEntryPoint cfg code_ptr) \<in> set (new_events s s')"
    by (simp add: restored_def)
  have ex: "\<exists>it \<in> set (method_code_map s). live_entry cfg bitmap it \<and> snd it = m"
    using assms(3) live by force
  from sweep_entry_restored [OF this, of s] obtain it where
    it: "it \<in> set (method_code_map s)" "live_entry cfg bitmap it" "snd it = m"
      "entry_point_from_quick_compiled_code s' m = GetEntryPoint cfg (fst it)"
    unfolding st(1) by blast
  have 3: "\<exists>c. (c, m) \<in> set (method_code_map s) \<and> FromCodeToAllocation cfg c \<in> bitmap
                   \<and> entry_point_from_quick_compiled_code s' m = GetEntryPoint cfg c"
    using it by (intro exI [of _ "fst it"]) (auto simp: live_entry_def)
  then have 4: "(\<forall>c. (c, m) \<in> set (method_code_map s) \<and> FromCodeToAllocation cfg c \<in> bitmap
                       \<longrightarrow> c = code_ptr)
                 \<longrightarrow> entry_point_from_quick_compiled_code s' m = GetEntryPoint cfg code_ptr"
    by auto
  show ?thesis unfolding if_P [OF True] using 1 2 3 4 by blast
next
  case False
  note res = sweep_block_result [OF assms(1,2)]
  note st = sweep_block_state [OF assms(1,2)]
  have dead: "\<not> live_entry cfg bitmap (code_ptr, m)" using False by (simp add: live_entry_def)
  have 1: "code_ptr \<notin> fst ` set (method_code_map s')"
    using False by (auto simp: res(1) live_entry_def)
  have 2: "hotness_count s' m = 0"
    unfolding st(2) sweep_hotness using assms(3) dead by force
  note fr = sweep_frees [OF assms(3) dead, of s, simplified]
  have 3: "\<not> allocated (code_mspace s') (FromCodeToAllocation cfg code_ptr)"
    unfolding st(4) by (rule fr(1))
  have 4: "\<forall>p. GetMappingTable cfg (method_headers s code_ptr) code_ptr = Some p
                     \<longrightarrow> \<not> allocated (data_mspace s') p"
    using fr(3) st(5) by blast
  have 5: "vmap_table_offset (method_headers s code_ptr) \<noteq> 0
                     \<longrightarrow> \<not> allocated (data_mspace s')
                            (ptr_minus cfg code_ptr (vmap_table_offset (method_headers s code_ptr)))"
    using fr(4) st(5) by blast
  have 6: "\<forall>p. GetNativeGcMap cfg (method_headers s code_ptr) code_ptr = Some p
                     \<longrightarrow> \<not> allocated (data_mspace s') p"
    using fr(2) st(5) by blast
  show ?thesis unfolding if_not_P [OF False] using 1 2 3 4 5 6 by blast
qed

text \<open>
  The instance: a cache with two entries and one frame on the stacks; the first entry is
  restored, the second one and its vmap table are freed.
\<close>

theorem sweep_restores_or_frees_witness:
  "GarbageCollectCache_sweep example_config (before_sweep example_config [Some 98336] busy_cache)
     = Inr swept_cache
   \<and> live_bitmap (before_sweep example_config [Some 98336] busy_cache) = Some {98304}
   \<and> method_code_map (before_sweep example_config [Some 98336] busy_cache) = [(98336, 1), (98464, 2)]
   \<and> FromCodeToAllocation example_config 98336 \<in> {98304}
   \<and> (98336, 1) \<in> set (method_code_map swept_cache)
   \<and> entry_point_from_quick_compiled_code swept_cache 1 = GetEntryPoint example_config 98336
   \<and> FromCodeToAllocation example_config 98464 \<notin> {98304}
   \<and> 98464 \<notin> fst ` set (method_code_map swept_cache)
   \<and> hotness_count swept_cache 2 = 0
   \<and> \<not> allocated (code_mspace swept_cache) (FromCodeToAllocation example_config 98464)
   \<and> vmap_table_offset (method_headers busy_cache 98464) = 32928
   \<and> ptr_minus example_config 98464 32928 = 65536
   \<and> allocated (data_mspace busy_cache) 65536
   \<and> \<not> allocated (data_mspace swept_cache) 65536"
proof -
  have bm: "live_bitmap (before_sweep example_config [Some 98336] busy_cache) = Some {98304}"
    unfolding before_sweep_busy by simp
  have m: "method_code_map (before_sweep example_config [Some 98336] busy_cache) = [(98336, 1), (98464, 2)]"
    unfolding before_sweep_busy by (simp add: busy_cache_def)
  have e1: "(98336, 1) \<in> set (method_code_map (before_sweep example_config [Some 98336] busy_cache))"
    and e2: "(98464, 2) \<in> set (method_code_map (before_sweep example_config [Some 98336] busy_cache))"
    by (simp_all add: m)
  have h: "method_headers (before_sweep example_config [Some 98336] busy_cache) = method_headers busy_cache"
    unfolding before_sweep_busy by simp
  have v: "vmap_table_offset (method_headers busy_cache 98464) = 32928"
    by (simp add: busy_cache_def)
  have p: "ptr_minus example_config 98464 32928 = 65536"
    by (simp add: ptr_minus_def example_config_def)
  have a: "allocated (data_mspace busy_cache) 65536"
    by (simp add: allocated_def busy_cache_def)
  show ?thesis
    using sweep_restores_or_frees [OF sweep_busy bm e1] sweep_restores_or_frees [OF sweep_busy bm e2]
      sweep_busy bm m v p a
    by (simp add: allocation_example h)
qed

subsection \<open>C2\<close>

text \<open>
  Claim C2.  The claim says that on a fresh cache (\<open>has_done_one_collection\<close> false) the
  first cycle grows the capacity when it is below the maximum, and that a later cycle with
  no room to grow sweeps.  The source asks for a growth only after a collection has been
  done.  Amended: a cycle on a cache whose flag is false sweeps and leaves the capacity as
  it is, and sets the flag; a cycle on a cache whose flag is set grows the capacity when it
  is below the maximum, without a sweep, and clears the flag; with the flag set and no room
  to grow the cycle sweeps.
\<close>

theorem sweeps_before_it_grows:
  assumes "reachable cfg s" "32 \<le> pointer_bits cfg"
    and "GarbageCollectCache cfg frames s = Inr s'"
  shows "(\<not> has_done_one_collection s \<longrightarrow>
            Swept \<in> set (new_events s s') \<and> current_capacity s' = current_capacity s
            \<and> has_done_one_collection s')
       \<and> (has_done_one_collection s \<and> current_capacity s < max_capacity s \<longrightarrow>
            Swept \<notin> set (new_events s s') \<and> current_capacity s' = grown_capacity s
            \<and> \<not> has_done_one_collection s')
       \<and> (has_done_one_collection s \<and> current_capacity s = max_capacity s \<longrightarrow>
            Swept \<in> set (new_events s s') \<and> current_capacity s' = current_capacity s
            \<and> has_done_one_collection s')"
proof -
  note inv = reachable_inv [OF assms(1,2)]
  have a: "Swept \<in> set (new_events s s') \<and> current_capacity s' = current_capacity s
            \<and> has_done_one_collection s'"
    if "\<not> has_done_one_collection s \<or> current_capacity s = max_capacity s"
    using collecting_cycle [OF assms(3) that] by (simp add: shrinks_def)
  have b: "Swept \<notin> set (new_events s s') \<and> current_capacity s' = grown_capacity s
            \<and> \<not> has_done_one_collection s'"
    if "has_done_one_collection s" "current_capacity s < max_capacity s"
    using growing_cycle [OF inv assms(2,3) that] by simp
  show ?thesis using a b by blast
qed

text \<open>
  The instance: the fresh cache of 16 KiB with a maximum of 64 KiB is swept by its first
  cycle and keeps its capacity.
\<close>

theorem sweeps_before_it_grows_witness:
  "reachable example_config fresh_cache \<and> 32 \<le> pointer_bits example_config
   \<and> GarbageCollectCache example_config [] fresh_cache = Inr collected_cache
   \<and> has_done_one_collection fresh_cache = False
   \<and> Swept \<in> set (new_events fresh_cache collected_cache)
   \<and> current_capacity collected_cache = current_capacity fresh_cache
   \<and> has_done_one_collection collected_cache
   \<and> reachable example_config collected_cache
   \<and> GarbageCollectCache example_config [] collected_cache = Inr grown_cache
   \<and> current_capacity collected_cache < max_capacity collected_cache
   \<and> Swept \<notin> set (new_events collected_cache grown_cache)
   \<and> current_capacity grown_cache = grown_capacity collected_cache
   \<and> current_capacity grown_cache = 32768
   \<and> has_done_one_collection grown_cache = False"
proof -
  have bits: "32 \<le> pointer_bits example_config" by (simp add: example_config_def)
  have f: "has_done_one_collection fresh_cache = False" "has_done_one_collection collected_cache"
    "current_capacity collected_cache < max_capacity collected_cache"
    "current_capacity grown_cache = 32768"
    by (simp_all add: collected_cache_def fresh_cache_def grown_cache_def)
  show ?thesis
    using sweeps_before_it_grows [OF reachable_fresh bits GC_fresh']
      sweeps_before_it_grows [OF reachable_collected bits GC_collected]
      reachable_fresh reachable_collected bits GC_fresh' GC_collected f
    by simp
qed

text \<open>
  Against the claim as stated: the cache that \<open>Create\<close> returns has room to grow, and its
  first cycle sweeps without growing.
\<close>

theorem first_cycle_counterexample:
  "Create example_config example_platform 16384 65536 = Inr (Inr fresh_cache)
   \<and> \<not> has_done_one_collection fresh_cache
   \<and> current_capacity fresh_cache < max_capacity fresh_cache
   \<and> GarbageCollectCache example_config [] fresh_cache = Inr collected_cache
   \<and> current_capacity collected_cache = current_capacity fresh_cache
   \<and> new_events fresh_cache collected_cache = [CollectionStarted, Swept]"
  using Create_fresh GC_fresh'
  by (simp add: collected_cache_def fresh_cache_def new_events_def)

subsection \<open>C3\<close>

text \<open>
  Claim C3.  From a state in which no collection is in progress, and with \<open>mprotect\<close>
  succeeding, \<open>CommitCode\<close> and \<open>ReserveData\<close> return.  The events they log are either
  one call of the allocator that succeeded and no collector cycle, or a call of the allocator
  that answered null, one collector cycle and one more call of the allocator; the result is
  null exactly when the last call answered null.
\<close>

theorem retries_once:
  assumes "\<not> collection_in_progress s" "mprotect_ok cfg"
  shows "(\<exists>r s' a. CommitCode cfg frames args now s = Inr (r, s')
            \<and> at_most_one_retry (new_events s s') a
            \<and> r = map_option (\<lambda>p. FromCodePointer cfg (p + header_size cfg)) a)
       \<and> (\<exists>r s'. ReserveData cfg frames n s = Inr (r, s')
            \<and> at_most_one_retry (new_events s s') r)"
proof
  obtain r1 s1 t1 where c1: "CommitCodeInternal cfg args now s = Inr (r1, s1)"
    and t1: "trace s1 = trace s @ t1" and i1: "\<not> collection_in_progress s1" and y1: "cycles t1 = 0"
    and a1: "case r1 of None \<Rightarrow> allocations t1 = [None]
               | Some h \<Rightarrow> \<exists>a. allocations t1 = [Some a] \<and> h = FromCodePointer cfg (a + header_size cfg)"
    using CommitCodeInternal_shape [OF assms] by blast
  show "\<exists>r s' a. CommitCode cfg frames args now s = Inr (r, s')
            \<and> at_most_one_retry (new_events s s') a
            \<and> r = map_option (\<lambda>p. FromCodePointer cfg (p + header_size cfg)) a"
  proof (cases r1)
    case (Some h)
    then obtain a where a: "allocations t1 = [Some a]" "h = FromCodePointer cfg (a + header_size cfg)"
      using a1 by auto
    have "CommitCode cfg frames args now s = Inr (Some h, s1)"
      using c1 Some by (simp add: CommitCode_def)
    then show ?thesis
      using a y1 new_events_append [OF t1]
      by (intro exI [of _ "Some h"] exI [of _ s1] exI [of _ "Some a"])
         (simp add: at_most_one_retry_def)
  next
    case None
    then have an: "allocations t1 = [None]" using a1 by simp
    obtain s2 t2 where g: "GarbageCollectCache cfg frames s1 = Inr s2"
      and t2: "trace s2 = trace s1 @ t2" and i2: "\<not> collection_in_progress s2"
      and y2: "cycles t2 = 1" and a2: "allocations t2 = []"
      using GarbageCollectCache_shape [OF i1 assms(2)] by blast
    obtain r3 s3 t3 where c3: "CommitCodeInternal cfg args now s2 = Inr (r3, s3)"
      and t3: "trace s3 = trace s2 @ t3" and y3: "cycles t3 = 0"
      and a3: "case r3 of None \<Rightarrow> allocations t3 = [None]
               | Some h \<Rightarrow> \<exists>a. allocations t3 = [Some a] \<and> h = FromCodePointer cfg (a + header_size cfg)"
      using CommitCodeInternal_shape [OF i2 assms(2)] by blast
    have cc: "CommitCode cfg frames args now s = Inr (r3, s3)"
      using c1 None g c3 by (simp add: CommitCode_def)
    have ne: "new_events s s3 = t1 @ t2 @ t3"
      by (rule new_events_append) (simp add: t1 t2 t3)
    obtain a where a: "allocations t3 = [a]"
      "r3 = map_option (\<lambda>p. FromCodePointer cfg (p + header_size cfg)) a"
      using a3 by (cases r3) auto
    show ?thesis
      using cc a an a2 y1 y2 y3
      by (intro exI [of _ r3] exI [of _ s3] exI [of _ a])
         (simp add: at_most_one_retry_def ne)
  qed
next
  define k where "k = RoundUp cfg n (sizeof_pointer cfg)"
  obtain r1 s1 where c1: "ReserveData_allocate cfg k s = Inr (r1, s1)"
    and t1: "trace s1 = trace s @ [Allocate DataRegion k r1]" and i1: "\<not> collection_in_progress s1"
    using ReserveData_allocate_shape [OF assms(1)] by blast
  show "\<exists>r s'. ReserveData cfg frames n s = Inr (r, s') \<and> at_most_one_retry (new_events s s') r"
  proof (cases r1)
    case (Some a)
    have "ReserveData cfg frames n s = Inr (Some a, s1)"
      using c1 Some by (simp add: ReserveData_def k_def)
    then show ?thesis
      using Some new_events_append [OF t1]
      by (intro exI [of _ "Some a"] exI [of _ s1]) (simp add: at_most_one_retry_def)
  next
    case None
    obtain s2 t2 where g: "GarbageCollectCache cfg frames s1 = Inr s2"
      and t2: "trace s2 = trace s1 @ t2" and i2: "\<not> collection_in_progress s2"
      and y2: "cycles t2 = 1" and a2: "allocations t2 = []"
      using GarbageCollectCache_shape [OF i1 assms(2)] by blast
    obtain r3 s3 where c3: "ReserveData_allocate cfg k s2 = Inr (r3, s3)"
      and t3: "trace s3 = trace s2 @ [Allocate DataRegion k r3]"
      using ReserveData_allocate_shape [OF i2] by blast
    have cc: "ReserveData cfg frames n s = Inr (r3, s3)"
      using c1 None g c3 by (simp add: ReserveData_def k_def)
    have ne: "new_events s s3 = Allocate DataRegion k None # t2 @ [Allocate DataRegion k r3]"
      by (rule new_events_append) (simp add: t1 t2 t3 None)
    show ?thesis
      using cc a2 y2
      by (intro exI [of _ r3] exI [of _ s3]) (simp add: at_most_one_retry_def ne)
  qed
qed

text \<open>
  The instance: on the fresh cache a commit of 100000 bytes fails twice around one cycle
  and returns null; a reservation of 61 bytes succeeds at once.
\<close>

theorem retries_once_witness:
  "collection_in_progress fresh_cache = False \<and> mprotect_ok example_config
   \<and> CommitCode example_config [] big_args 9 fresh_cache = Inr (None, exhausted_cache)
   \<and> new_events fresh_cache exhausted_cache
        = [Allocate CodeRegion 100032 None, CollectionStarted, Swept, Allocate CodeRegion 100032 None]
   \<and> at_most_one_retry (new_events fresh_cache exhausted_cache) None
   \<and> ReserveData example_config [] 61 fresh_cache = Inr (Some 65536, reserved_cache)
   \<and> new_events fresh_cache reserved_cache = [Allocate DataRegion 64 (Some 65536)]
   \<and> at_most_one_retry (new_events fresh_cache reserved_cache) (Some 65536)"
proof -
  have i: "\<not> collection_in_progress fresh_cache" by (simp add: fresh_cache_def)
  have p: "mprotect_ok example_config" by (simp add: example_config_def)
  have e1: "new_events fresh_cache exhausted_cache
        = [Allocate CodeRegion 100032 None, CollectionStarted, Swept, Allocate CodeRegion 100032 None]"
    by (simp add: new_events_def exhausted_cache_def fresh_cache_def)
  have e2: "new_events fresh_cache reserved_cache = [Allocate DataRegion 64 (Some 65536)]"
    by (simp add: new_events_def reserved_cache_def fresh_cache_def)
  show ?thesis
    using retries_once [OF i p, of "[]" big_args 9 61] i p big_commit small_reserve
    by (simp add: e1 e2 at_most_one_retry_def)
qed

subsection \<open>C4\<close>

text \<open>
  Claim C4.  The claim says that the lookup finds the entry with the greatest start address
  not above the program counter, so that a program counter equal to the start of an entry
  finds that entry.  The source decrements the iterator that \<open>lower_bound\<close> returns, which
  gives the entry with the greatest start address strictly below the program counter.
  Amended: for a program counter \<open>pc\<close> (on ARM, the given one less one) inside the code
  region and a map, sorted by its keys, with an entry that starts below \<open>pc\<close>, the lookup
  takes the entry \<open>code_ptr\<close> with the greatest start address strictly below \<open>pc\<close> and
  returns its header if the header contains \<open>pc\<close>, and null otherwise; a program counter
  equal to the start of an entry is looked up in the entry before it.
\<close>

theorem lookup_finds_entry_below:
  assumes "sorted (map fst (method_code_map s))"
    and "pc = (if kRuntimeISA_is_kArm cfg then ptr_minus cfg pc0 1 else pc0)"
    and "ContainsPc s pc"
    and "(code_ptr, m) \<in> set (method_code_map s)" and "code_ptr < pc"
    and "\<forall>e \<in> set (method_code_map s). fst e < pc \<longrightarrow> fst e \<le> code_ptr"
  shows "LookupMethodHeader cfg pc0 expected s =
           Inr (if Contains (method_headers s code_ptr) code_ptr pc
                then Some (FromCodePointer cfg code_ptr) else None)"
proof -
  define es where "es = method_code_map s"
  define tw where "tw = takeWhile (\<lambda>e. fst e < pc) es"
  have tw: "tw = filter (\<lambda>e. fst e < pc) es"
    unfolding tw_def using assms(1) by (simp add: es_def takeWhile_sorted_below)
  have mem: "(code_ptr, m) \<in> set tw" using assms(4,5) by (simp add: tw es_def)
  then have ne: "tw \<noteq> []" by auto
  have lb: "lower_bound pc es = length tw" by (simp add: lower_bound_def tw_def)
  have "length tw - 1 < length tw" using ne by simp
  then have "es ! (length tw - 1) = tw ! (length tw - 1)"
    unfolding tw_def by (rule takeWhile_nth [symmetric])
  also have "\<dots> = last tw" using ne by (simp add: last_conv_nth)
  finally have nth: "es ! (length tw - 1) = last tw" .
  have "last tw \<in> set tw" using ne by simp
  then have "fst (last tw) \<le> code_ptr" using assms(6) by (simp add: tw es_def)
  moreover have "code_ptr \<le> fst (last tw)"
  proof -
    have "sorted (map fst tw)" unfolding tw using assms(1) by (simp add: es_def sorted_filter)
    moreover have "code_ptr \<in> set (map fst tw)" using mem by force
    ultimately have "code_ptr \<le> last (map fst tw)" by (rule sorted_le_last)
    then show ?thesis using ne by (simp add: last_map)
  qed
  ultimately have c: "fst (es ! (length tw - 1)) = code_ptr" unfolding nth by (rule antisym)
  have "es \<noteq> []" using assms(4) by (auto simp: es_def)
  then show ?thesis
    using assms(3) ne c lb
    by (simp add: LookupMethodHeader_def Let_def assms(2) [symmetric] es_def [symmetric])
qed

text \<open>
  The instance: in the cache with code at 98336 and at 98464, the program counter 98470
  finds the second header, and 98464, the start of the second entry, is looked up in the
  first entry, which does not contain it.
\<close>

theorem lookup_finds_entry_below_witness:
  "sorted (map fst (method_code_map busy_cache))
   \<and> kRuntimeISA_is_kArm example_config = False
   \<and> ContainsPc busy_cache 98470
   \<and> method_code_map busy_cache = [(98336, 1), (98464, 2)]
   \<and> Contains (method_headers busy_cache 98464) 98464 98470
   \<and> LookupMethodHeader example_config 98470 None busy_cache
        = Inr (Some (FromCodePointer example_config 98464))
   \<and> ContainsPc busy_cache 98464
   \<and> Contains (method_headers busy_cache 98336) 98336 98464 = False
   \<and> LookupMethodHeader example_config 98464 None busy_cache = Inr None"
proof -
  have m: "method_code_map busy_cache = [(98336, 1), (98464, 2)]"
    by (simp add: busy_cache_def)
  have s: "sorted (map fst (method_code_map busy_cache))" by (simp add: m)
  have a: "kRuntimeISA_is_kArm example_config = False" by (simp add: example_config_def)
  have p1: "98470 = (if kRuntimeISA_is_kArm example_config then ptr_minus example_config 98470 1 else 98470)"
    and p2: "98464 = (if kRuntimeISA_is_kArm example_config then ptr_minus example_config 98464 1 else 98464)"
    by (simp_all add: a)
  have c1: "ContainsPc busy_cache 98470" and c2: "ContainsPc busy_cache 98464"
    by (simp_all add: ContainsPc_def busy_cache_def)
  have e1: "(98464, 2) \<in> set (method_code_map busy_cache)"
    and e2: "(98336, 1) \<in> set (method_code_map busy_cache)"
    by (simp_all add: m)
  have g1: "\<forall>e \<in> set (method_code_map busy_cache). fst e < 98470 \<longrightarrow> fst e \<le> 98464"
    and g2: "\<forall>e \<in> set (method_code_map busy_cache). fst e < 98464 \<longrightarrow> fst e \<le> 98336"
    by (simp_all add: m)
  have h1: "Contains (method_headers busy_cache 98464) 98464 98470"
    and h2: "Contains (method_headers busy_cache 98336) 98336 98464 = False"
    by (simp_all add: Contains_def busy_cache_def zero_header_def)
  show ?thesis
    using lookup_finds_entry_below [OF s p1 c1 e1 _ g1, of None]
      lookup_finds_entry_below [OF s p2 c2 e2 _ g2, of None]
      s a c1 c2 m h1 h2
    by simp
qed

text \<open>
  Against the claim as stated: \<open>LookupHeader_as_claimed\<close> follows the words of the claim
  (the last entry, in the order of the keys, that starts at or below the program counter);
  at the start of the second entry it gives the header of that entry, and the source gives
  null.
\<close>

theorem lookup_at_start_counterexample:
  "ContainsPc busy_cache 98464
   \<and> method_code_map busy_cache = [(98336, 1), (98464, 2)]
   \<and> Contains (method_headers busy_cache 98464) 98464 98464
   \<and> LookupHeader_as_claimed example_config 98464 busy_cache
        = Some (FromCodePointer example_config 98464)
   \<and> LookupMethodHeader example_config 98464 None busy_cache = Inr None"
  by (simp add: LookupHeader_as_claimed_def LookupMethodHeader_def lower_bound_def ContainsPc_def
      Contains_def Let_def busy_cache_def zero_header_def example_config_def)

subsection \<open>C5\<close>

text \<open>
  Claim C5.  In every reachable state the bytes in use in the code region and in the data
  region together are at most the current capacity, the current capacity is at most the
  maximum capacity, and no step lowers the current capacity.  The platform has pointers of
  at least 32 bits.
\<close>

theorem capacity_invariant:
  assumes "reachable cfg s" "32 \<le> pointer_bits cfg"
  shows "CodeCacheSizeLocked s + DataCacheSizeLocked s \<le> current_capacity s
         \<and> current_capacity s \<le> max_capacity s
         \<and> (\<forall>s'. cache_step cfg s s' \<longrightarrow> current_capacity s \<le> current_capacity s')"
proof -
  note inv = reachable_inv [OF assms]
  have "bytes_allocated (code_mspace s) \<le> current_capacity s div 2"
    "bytes_allocated (data_mspace s) \<le> current_capacity s div 2"
    using inv bytes_allocated_le [of "code_mspace s"] bytes_allocated_le [of "data_mspace s"]
    by (simp_all add: cache_inv_def)
  then have "CodeCacheSizeLocked s + DataCacheSizeLocked s \<le> current_capacity s"
    by (simp add: CodeCacheSizeLocked_def DataCacheSizeLocked_def)
  moreover have "current_capacity s \<le> max_capacity s" using inv by (simp add: cache_inv_def)
  moreover have "\<forall>s'. cache_step cfg s s' \<longrightarrow> current_capacity s \<le> current_capacity s'"
    using step_inv [OF inv assms(2)] by blast
  ultimately show ?thesis by blast
qed

text \<open>The instance: the example cache after a sweep and a growth.\<close>

theorem capacity_invariant_witness:
  "reachable example_config announced_cache \<and> 32 \<le> pointer_bits example_config
   \<and> CodeCacheSizeLocked announced_cache + DataCacheSizeLocked announced_cache
         \<le> current_capacity announced_cache
   \<and> current_capacity announced_cache \<le> max_capacity announced_cache
   \<and> cache_step example_config announced_cache grown_cache
   \<and> current_capacity announced_cache \<le> current_capacity grown_cache"
proof -
  have bits: "32 \<le> pointer_bits example_config" by (simp add: example_config_def)
  have r: "reachable example_config announced_cache"
    using reachable_step [OF reachable_collected step_gc_begin [OF begin_collected]] .
  have st: "cache_step example_config announced_cache grown_cache"
    using step_gc_decide [OF decide_announced] .
  show ?thesis
    using capacity_invariant [OF r bits] r bits st by simp
qed

subsection \<open>C6\<close>

text \<open>
  Claim C6.  In a cycle that collects (the growth is not attempted or not possible), the
  state in which the sweep starts has the interpreter bridge as the entry point of every
  method of the map and no profiling record attached to the method of any record of the
  list; the cycle ends with the list of profiling records empty, none of the records
  allocated any more, and their methods without a record, whether or not the code of the
  method survives.
\<close>

theorem collecting_cycle_resets_profiling:
  assumes "GarbageCollectCache cfg frames s = Inr s'"
    and "\<not> has_done_one_collection s \<or> current_capacity s = max_capacity s"
  shows "(\<forall>it \<in> set (method_code_map s).
            entry_point_from_quick_compiled_code (before_sweep cfg frames s) (snd it)
              = GetQuickToInterpreterBridge cfg)
       \<and> (\<forall>info \<in> set (profiling_infos s).
            profiling_info (before_sweep cfg frames s) (snd info) = None)
       \<and> GarbageCollectCache_sweep cfg (before_sweep cfg frames s) = Inr s'
       \<and> profiling_infos s' = []
       \<and> (\<forall>info \<in> set (profiling_infos s).
            \<not> allocated (data_mspace s') (fst info) \<and> profiling_info s' (snd info) = None)"
proof -
  note sw = GarbageCollectCache_collects [OF assms]
  note bf = before_sweep_fields [of cfg frames s]
  note st = sweep_block_state [OF sw bf(1)]
  have 1: "\<forall>it \<in> set (method_code_map s).
            entry_point_from_quick_compiled_code (before_sweep cfg frames s) (snd it)
              = GetQuickToInterpreterBridge cfg"
    by (simp add: before_sweep_runtime)
  have 2: "\<forall>info \<in> set (profiling_infos s).
            profiling_info (before_sweep cfg frames s) (snd info) = None"
    by (simp add: before_sweep_runtime)
  have 3: "profiling_infos s' = []" by (rule sweep_block_result(3) [OF sw bf(1)])
  have 4: "\<forall>info \<in> set (profiling_infos s). \<not> allocated (data_mspace s') (fst info)"
    using st(6) by (simp add: bf)
  have 5: "\<forall>info \<in> set (profiling_infos s). profiling_info s' (snd info) = None"
    unfolding st(3) by (simp add: before_sweep_runtime)
  show ?thesis using 1 2 sw 3 4 5 by blast
qed

text \<open>
  The instance: the cache with two entries and a profiling record for the first method,
  whose code is on the stack: the code survives, the record does not.
\<close>

theorem collecting_cycle_resets_profiling_witness:
  "GarbageCollectCache example_config [Some 98336] busy_cache = Inr swept_cache
   \<and> has_done_one_collection busy_cache = False
   \<and> method_code_map busy_cache = [(98336, 1), (98464, 2)]
   \<and> profiling_infos busy_cache = [(65600, 1)]
   \<and> profiling_info busy_cache 1 = Some 65600
   \<and> allocated (data_mspace busy_cache) 65600
   \<and> entry_point_from_quick_compiled_code (before_sweep example_config [Some 98336] busy_cache) 1
        = GetQuickToInterpreterBridge example_config
   \<and> entry_point_from_quick_compiled_code (before_sweep example_config [Some 98336] busy_cache) 2
        = GetQuickToInterpreterBridge example_config
   \<and> profiling_info (before_sweep example_config [Some 98336] busy_cache) 1 = None
   \<and> (98336, 1) \<in> set (method_code_map swept_cache)
   \<and> profiling_infos swept_cache = []
   \<and> profiling_info swept_cache 1 = None
   \<and> \<not> allocated (data_mspace swept_cache) 65600"
proof -
  have f: "has_done_one_collection busy_cache = False"
    "method_code_map busy_cache = [(98336, 1), (98464, 2)]"
    "profiling_infos busy_cache = [(65600, 1)]"
    "profiling_info busy_cache 1 = Some 65600"
    "allocated (data_mspace busy_cache) 65600"
    by (simp_all add: busy_cache_def allocated_def)
  have no: "\<not> has_done_one_collection busy_cache \<or> current_capacity busy_cache = max_capacity busy_cache"
    by (simp add: f)
  have k: "(98336, 1) \<in> set (method_code_map swept_cache)"
    by (simp add: swept_cache_def)
  show ?thesis
    using collecting_cycle_resets_profiling [OF GC_busy no] GC_busy f k
    by simp
qed

subsection \<open>C7\<close>

text \<open>
  Claim C7.  \<open>AddProfilingInfo\<close> for a method that has a profiling record returns that
  record and leaves the state as it is, the log included, so nothing is allocated; a call
  that returned a record is followed by calls (with any entries and any retry flag) that
  return the same record; a call without retry that returned null is followed by a call
  that returns null.
\<close>

theorem AddProfilingInfo_idempotent:
  "(\<not> collection_in_progress s \<and> profiling_info s m = Some info \<longrightarrow>
       AddProfilingInfo cfg frames m entries retry s = Inr (Some info, s))
   \<and> (AddProfilingInfo cfg frames m entries retry s = Inr (Some info, s') \<longrightarrow>
       AddProfilingInfo cfg frames' m entries' retry' s' = Inr (Some info, s'))
   \<and> (AddProfilingInfo cfg frames m entries False s = Inr (None, s') \<longrightarrow>
       (\<exists>s''. AddProfilingInfo cfg frames' m entries False s' = Inr (None, s'')))"
proof (intro conjI impI)
  assume "\<not> collection_in_progress s \<and> profiling_info s m = Some info"
  then show "AddProfilingInfo cfg frames m entries retry s = Inr (Some info, s)"
    by (simp add: AddProfilingInfo_def AddProfilingInfoInternal_attached)
next
  assume a: "AddProfilingInfo cfg frames m entries retry s = Inr (Some info, s')"
  have "\<exists>t. AddProfilingInfoInternal cfg m entries t = Inr (Some info, s')"
    using a by (auto simp: AddProfilingInfo_def split: sum.splits if_splits)
  then have "\<not> collection_in_progress s' \<and> profiling_info s' m = Some info"
    using AddProfilingInfoInternal_Some by blast
  then show "AddProfilingInfo cfg frames' m entries' retry' s' = Inr (Some info, s')"
    by (simp add: AddProfilingInfo_def AddProfilingInfoInternal_attached)
next
  assume "AddProfilingInfo cfg frames m entries False s = Inr (None, s')"
  then have "AddProfilingInfoInternal cfg m entries s = Inr (None, s')"
    by (auto simp: AddProfilingInfo_def split: sum.splits)
  from AddProfilingInfoInternal_None [OF this]
  show "\<exists>s''. AddProfilingInfo cfg frames' m entries False s' = Inr (None, s'')"
    by (auto simp: AddProfilingInfo_def)
qed

text \<open>The instance: two calls for method 1 on the fresh cache return the record at 65536.\<close>

theorem AddProfilingInfo_idempotent_witness:
  "AddProfilingInfo example_config [] 1 [10, 20] True fresh_cache = Inr (Some 65536, profiled_cache)
   \<and> AddProfilingInfo example_config [Some 98336] 1 [30] False profiled_cache
        = Inr (Some 65536, profiled_cache)
   \<and> collection_in_progress profiled_cache = False
   \<and> profiling_info profiled_cache 1 = Some 65536"
proof -
  have "collection_in_progress profiled_cache = False" "profiling_info profiled_cache 1 = Some 65536"
    by (simp_all add: profiled_cache_def fresh_cache_def)
  then show ?thesis
    using AddProfilingInfo_idempotent [of fresh_cache 1 65536 example_config "[]" "[10, 20]" True
        profiled_cache "[Some 98336]" "[30]" False] first_attach
    by simp
qed

subsection \<open>C8\<close>

text \<open>
  Claim C8.  A cycle on a reachable cache that has done a collection and whose capacity is
  below the maximum takes the growth shortcut: the capacity becomes twice the old one
  below 1 MB and 1 MB more otherwise, clamped to the maximum; both footprint limits are
  half of the new capacity and add up to it; the log of the cycle is its start and the
  growth, with no sweep, and the map, the profiling records, the chunks, the entry points
  and the bitmap are as before.  Every other cycle sweeps, and neither the capacity nor the
  footprint limits change in it: a cycle grows or collects, never both.
\<close>

theorem growth_shortcut:
  assumes "reachable cfg s" "32 \<le> pointer_bits cfg"
    and "GarbageCollectCache cfg frames s = Inr s'"
  shows "if has_done_one_collection s \<and> current_capacity s < max_capacity s
         then current_capacity s' =
                min (max_capacity s)
                  (if current_capacity s < MB then 2 * current_capacity s else current_capacity s + MB)
            \<and> footprint_limit (code_mspace s') = current_capacity s' div 2
            \<and> footprint_limit (data_mspace s') = current_capacity s' div 2
            \<and> footprint_limit (code_mspace s') + footprint_limit (data_mspace s') = current_capacity s'
            \<and> new_events s s' = [CollectionStarted, CapacityIncreased (current_capacity s')]
            \<and> method_code_map s' = method_code_map s \<and> profiling_infos s' = profiling_infos s
            \<and> chunks (code_mspace s') = chunks (code_mspace s)
            \<and> chunks (data_mspace s') = chunks (data_mspace s)
            \<and> entry_point_from_quick_compiled_code s' = entry_point_from_quick_compiled_code s
            \<and> live_bitmap s' = live_bitmap s
         else current_capacity s' = current_capacity s
            \<and> footprint_limit (code_mspace s') = footprint_limit (code_mspace s)
            \<and> footprint_limit (data_mspace s') = footprint_limit (data_mspace s)
            \<and> Swept \<in> set (new_events s s')
            \<and> (\<forall>c. CapacityIncreased c \<notin> set (new_events s s'))"
proof (cases "has_done_one_collection s \<and> current_capacity s < max_capacity s")
  case True
  note inv = reachable_inv [OF assms(1,2)]
  note g = growing_cycle [OF inv assms(2,3) conjunct1 [OF True] conjunct2 [OF True]]
  have "even (grown_capacity s)"
    using grown_capacity_bounds(3) [OF inv] by (auto simp: kPageSize_def elim: dvdE)
  then have "grown_capacity s div 2 + grown_capacity s div 2 = grown_capacity s"
    by (auto elim: evenE)
  then show ?thesis
    unfolding if_P [OF True] using g by (simp add: grown_capacity_def)
next
  case False
  have "current_capacity s \<le> max_capacity s"
    using reachable_inv [OF assms(1,2)] by (simp add: cache_inv_def)
  with False have no: "\<not> has_done_one_collection s \<or> current_capacity s = max_capacity s"
    by auto
  note c = collecting_cycle [OF assms(3) no]
  have ev: "Swept \<in> set (new_events s s')" "\<forall>c. CapacityIncreased c \<notin> set (new_events s s')"
    unfolding c(2) by (auto simp: bridged_def restored_def)
  show ?thesis
    unfolding if_not_P [OF False] using c(1) ev by (simp add: shrinks_def released_def)
qed

text \<open>The instance: the example cache grows from 16 KiB to 32 KiB after its first sweep.\<close>

theorem growth_shortcut_witness:
  "reachable example_config collected_cache \<and> 32 \<le> pointer_bits example_config
   \<and> GarbageCollectCache example_config [] collected_cache = Inr grown_cache
   \<and> has_done_one_collection collected_cache
   \<and> current_capacity collected_cache < max_capacity collected_cache
   \<and> current_capacity collected_cache = 16384 \<and> current_capacity grown_cache = 32768
   \<and> footprint_limit (code_mspace grown_cache) = 16384
   \<and> footprint_limit (data_mspace grown_cache) = 16384
   \<and> new_events collected_cache grown_cache = [CollectionStarted, CapacityIncreased 32768]
   \<and> reachable example_config fresh_cache
   \<and> GarbageCollectCache example_config [] fresh_cache = Inr collected_cache
   \<and> has_done_one_collection fresh_cache = False
   \<and> current_capacity collected_cache = current_capacity fresh_cache
   \<and> new_events fresh_cache collected_cache = [CollectionStarted, Swept]"
proof -
  have bits: "32 \<le> pointer_bits example_config" by (simp add: example_config_def)
  show ?thesis
    using growth_shortcut [OF reachable_collected bits GC_collected]
      growth_shortcut [OF reachable_fresh bits GC_fresh']
      reachable_collected reachable_fresh bits GC_collected GC_fresh'
    by (simp add: collected_cache_def grown_cache_def fresh_cache_def MB_def KB_def new_events_def)
qed

subsection \<open>C9\<close>

text \<open>
  Claim C9.  For capacities that pass the first check of \<open>Create\<close> (the initial capacity
  is at most the maximum): a maximum above 1 GB, a failure of \<open>MapAnonymous\<close> and a failure
  of \<open>RemapAtEnd\<close> each make \<open>Create\<close> return null with its message, written out here;
  and a cache that \<open>Create\<close> returns is whole: both mappings succeeded, the maximum was at
  most 1 GB, the invariant holds, the capacities are the rounded arguments, and the map, the
  list of profiling records, both mspaces and the bitmap are empty.
\<close>

theorem Create_fails_whole:
  assumes "initial_capacity \<le> max_cap"
  shows "(max_cap > GB \<longrightarrow>
            Create cfg pf initial_capacity max_cap =
              Inr (Inl (''Maxium code cache capacity is limited to 1 GB, ''
                        @ PrettySize pf max_cap @ '' is too big'')))
       \<and> (max_cap \<le> GB \<and> MapAnonymous pf max_cap = Inl error_str \<longrightarrow>
            Create cfg pf initial_capacity max_cap =
              Inr (Inl (''Failed to create read write execute cache: '' @ error_str
                        @ '' size='' @ decimal max_cap)))
       \<and> (max_cap \<le> GB \<and> MapAnonymous pf max_cap = Inr data_begin
            \<and> RemapAtEnd pf (data_begin + RoundDown max_cap (2 * kPageSize) div 2) = Inl error_str \<longrightarrow>
            Create cfg pf initial_capacity max_cap =
              Inr (Inl (''Failed to create read write execute cache: '' @ error_str
                        @ '' size='' @ decimal (RoundDown max_cap (2 * kPageSize)))))
       \<and> (Create cfg pf initial_capacity max_cap = Inr (Inr s) \<longrightarrow>
            max_cap \<le> GB
            \<and> MapAnonymous pf max_cap = Inr (data_map_begin s)
            \<and> RemapAtEnd pf (data_map_begin s + RoundDown max_cap (2 * kPageSize) div 2)
                 = Inr (code_map_begin s)
            \<and> cache_inv s
            \<and> max_capacity s = RoundDown max_cap (2 * kPageSize)
            \<and> current_capacity s = RoundDown initial_capacity (2 * kPageSize)
            \<and> method_code_map s = [] \<and> profiling_infos s = []
            \<and> chunks (code_mspace s) = [] \<and> chunks (data_mspace s) = []
            \<and> live_bitmap s = None \<and> \<not> collection_in_progress s
            \<and> \<not> has_done_one_collection s)"
proof -
  have p1: "max_cap > GB \<longrightarrow>
            Create cfg pf initial_capacity max_cap =
              Inr (Inl (''Maxium code cache capacity is limited to 1 GB, ''
                        @ PrettySize pf max_cap @ '' is too big''))"
    using assms by (simp add: Create_def)
  have p2: "max_cap \<le> GB \<and> MapAnonymous pf max_cap = Inl error_str \<longrightarrow>
            Create cfg pf initial_capacity max_cap =
              Inr (Inl (''Failed to create read write execute cache: '' @ error_str
                        @ '' size='' @ decimal max_cap))"
    using assms by (simp add: Create_def del: decimal.simps)
  have p3: "max_cap \<le> GB \<and> MapAnonymous pf max_cap = Inr data_begin
            \<and> RemapAtEnd pf (data_begin + RoundDown max_cap (2 * kPageSize) div 2) = Inl error_str \<longrightarrow>
            Create cfg pf initial_capacity max_cap =
              Inr (Inl (''Failed to create read write execute cache: '' @ error_str
                        @ '' size='' @ decimal (RoundDown max_cap (2 * kPageSize))))"
    using assms by (simp add: Create_def Let_def del: decimal.simps)
  have p4: "Create cfg pf initial_capacity max_cap = Inr (Inr s) \<longrightarrow>
            max_cap \<le> GB
            \<and> MapAnonymous pf max_cap = Inr (data_map_begin s)
            \<and> RemapAtEnd pf (data_map_begin s + RoundDown max_cap (2 * kPageSize) div 2)
                 = Inr (code_map_begin s)
            \<and> cache_inv s
            \<and> max_capacity s = RoundDown max_cap (2 * kPageSize)
            \<and> current_capacity s = RoundDown initial_capacity (2 * kPageSize)
            \<and> method_code_map s = [] \<and> profiling_infos s = []
            \<and> chunks (code_mspace s) = [] \<and> chunks (data_mspace s) = []
            \<and> live_bitmap s = None \<and> \<not> collection_in_progress s
            \<and> \<not> has_done_one_collection s"
  proof
    assume c: "Create cfg pf initial_capacity max_cap = Inr (Inr s)"
    define i' where "i' = RoundDown initial_capacity (2 * kPageSize)"
    define m' where "m' = RoundDown max_cap (2 * kPageSize)"
    have le: "max_cap \<le> GB" using c by (auto simp: Create_def split: if_splits)
    obtain b where b: "MapAnonymous pf max_cap = Inr b"
      using c le by (auto simp: Create_def split: if_splits sum.splits)
    obtain cb where cb: "RemapAtEnd pf (b + m' div 2) = Inr cb"
      using c le b by (auto simp: Create_def Let_def m'_def split: if_splits sum.splits)
    have n: "JitCodeCache_new cfg pf cb (max_cap - m' div 2) b (m' div 2) (i' - i' div 2) (i' div 2) m' = Inr s"
      using c le b cb by (auto simp: Create_def Let_def m'_def i'_def split: if_splits sum.splits)
    have "i' - i' div 2 + i' div 2 = i'" by simp
    then have f: "data_map_begin s = b" "code_map_begin s = cb" "max_capacity s = m'"
      "current_capacity s = i'" "method_code_map s = []" "profiling_infos s = []"
      "chunks (code_mspace s) = []" "chunks (data_mspace s) = []" "live_bitmap s = None"
      "\<not> collection_in_progress s" "\<not> has_done_one_collection s"
      using n unfolding JitCodeCache_new_def Let_def
      by (auto split: if_splits dest!: SetFootprintLimit_Inr
          simp: mspace_set_footprint_limit_def create_mspace_with_base_def)
    show "max_cap \<le> GB
            \<and> MapAnonymous pf max_cap = Inr (data_map_begin s)
            \<and> RemapAtEnd pf (data_map_begin s + RoundDown max_cap (2 * kPageSize) div 2)
                 = Inr (code_map_begin s)
            \<and> cache_inv s
            \<and> max_capacity s = RoundDown max_cap (2 * kPageSize)
            \<and> current_capacity s = RoundDown initial_capacity (2 * kPageSize)
            \<and> method_code_map s = [] \<and> profiling_infos s = []
            \<and> chunks (code_mspace s) = [] \<and> chunks (data_mspace s) = []
            \<and> live_bitmap s = None \<and> \<not> collection_in_progress s
            \<and> \<not> has_done_one_collection s"
      using le b cb f Create_inv [OF c] by (simp add: m'_def i'_def)
  qed
  show ?thesis by (intro conjI p1 p2 p3 p4)
qed

text \<open>
  The instance: a maximum of 2 GB, a platform whose \<open>MapAnonymous\<close> fails, and the
  construction of the fresh cache.
\<close>

theorem Create_fails_whole_witness:
  "(16384::nat) \<le> 2147483648 \<and> GB < 2147483648
   \<and> Create example_config example_platform 16384 2147483648
        = Inr (Inl ''Maxium code cache capacity is limited to 1 GB, 2147483648 is too big'')
   \<and> (16384::nat) \<le> 65536 \<and> 65536 \<le> GB
   \<and> MapAnonymous failing_platform 65536 = Inl ''mmap failed''
   \<and> Create example_config failing_platform 16384 65536
        = Inr (Inl ''Failed to create read write execute cache: mmap failed size=65536'')
   \<and> Create example_config example_platform 16384 65536 = Inr (Inr fresh_cache)
   \<and> method_code_map fresh_cache = []"
proof -
  have a: "(16384::nat) \<le> 2147483648" and b: "(16384::nat) \<le> 65536" by simp_all
  have g: "GB < 2147483648" "65536 \<le> GB" by (simp_all add: GB_def KB_def)
  have m: "MapAnonymous failing_platform 65536 = Inl ''mmap failed''"
    by (simp add: failing_platform_def)
  have p: "PrettySize example_platform 2147483648 = ''2147483648''"
    unfolding example_platform_def using decimal_2G by simp
  show ?thesis
    using Create_fails_whole [OF a, where cfg = example_config and pf = example_platform]
      Create_fails_whole [OF b, where cfg = example_config and pf = failing_platform
        and error_str = "''mmap failed''"]
      Create_fails_whole [OF b, where cfg = example_config and pf = example_platform
        and s = fresh_cache]
      g m p Create_fresh decimal_65536
    by (simp del: decimal.simps)
qed

subsection \<open>C10\<close>

text \<open>
  Claim C10.  The publishing block of \<open>CommitCodeInternal\<close> sets the bit of the new
  allocation when a collection is in progress, and the sweep then keeps the entry
  (\<open>published_entry_survives\<close> above).  The bitmap exists only from the second block of
  \<open>GarbageCollectCache\<close> on, while \<open>collection_in_progress_\<close> is set in the first one and
  the lock is released in between.  The run below has a thread allocate code in the fresh
  cache, another thread announce a collection, and the first thread publish: the call goes
  through the null bitmap.
\<close>

theorem publish_between_announcement_and_bitmap:
  "CommitCodeInternal_allocate example_config small_args fresh_cache = Inr (Some 98336, allocated_cache)
   \<and> GarbageCollectCache_begin allocated_cache = Inr waiting_cache
   \<and> collection_in_progress waiting_cache
   \<and> live_bitmap waiting_cache = None
   \<and> CommitCodeInternal_publish example_config 1 98336 9 waiting_cache = Inl NullBitmap"
proof -
  have 1: "CommitCodeInternal_allocate example_config small_args fresh_cache
             = Inr (Some 98336, allocated_cache)"
    by (simp add: CommitCodeInternal_allocate_def mspace_memalign_def
      admissible_def top_place_def RoundDown_def RoundUp_def header_size_def wrap_def log_def Let_def
      offset_to_def zero_header_def
      small_args_def fresh_cache_def allocated_cache_def example_config_def fun_eq_iff)
  have 2: "GarbageCollectCache_begin allocated_cache = Inr waiting_cache"
    by (simp add: GarbageCollectCache_begin_def log_def waiting_cache_def allocated_cache_def
        fresh_cache_def)
  have 3: "collection_in_progress waiting_cache" "live_bitmap waiting_cache = None"
    by (simp_all add: waiting_cache_def allocated_cache_def fresh_cache_def)
  show ?thesis
    using 1 2 3 publish_through_null_bitmap [OF 3] by simp
qed

end
